theory Spec2Isabelle
  imports Complex_Main "HOL-Library.Sublist"
begin

section \<open>Python values of the summarizer service\<close>

text \<open>
  The development embeds \<^verbatim>\<open>Backend/app/services/summarizer.py\<close> (class
  \<^verbatim>\<open>OptimizedTextSummarizer\<close>).  Python floats are modelled by exact reals, Python
  strings by \<open>string\<close>, and every exception the service can raise is a value of
  \<open>error\<close>; a fallible operation returns \<open>error + 'a\<close> with \<open>Inl\<close> for the exception.
  \<open>CollaboratorError\<close> stands for any exception raised inside an external library
  (scikit-learn, transformers).
\<close>

datatype error =
    FileNotFoundError
  | ValueError
  | ImportError
  | IndexError
  | KeyError
  | ZeroDivisionError
  | CollaboratorError

type_synonym matrix = "real list list"

section \<open>Selection and truncation shared by the three rankers\<close>

text \<open>
  \<^verbatim>\<open>list.sort(key=..., reverse=True)\<close>: CPython reverses the list, runs its stable
  ascending sort on the keys, and reverses the result, which is what keeps the sort
  stable under \<^verbatim>\<open>reverse=True\<close>.  \<open>sort_key\<close> is HOL's stable insertion sort.
\<close>

definition py_sort_reverse :: "('a \<Rightarrow> real) \<Rightarrow> 'a list \<Rightarrow> 'a list" where
  "py_sort_reverse key xs = rev (sort_key key (rev xs))"

text \<open>The slice \<^verbatim>\<open>xs[:k]\<close>; a negative \<open>k\<close> counts from the end.\<close>

definition py_slice_to :: "int \<Rightarrow> 'a list \<Rightarrow> 'a list" where
  "py_slice_to k xs =
     (if 0 \<le> k then take (nat k) xs else take (length xs - nat (- k)) xs)"

text \<open>
  \<^verbatim>\<open>sentence_scores = [(scores[i], sentences[i]) for i in range(len(sentences))]\<close>;
  reading \<^verbatim>\<open>scores[i]\<close> past the end of the score array raises \<^verbatim>\<open>IndexError\<close>.
\<close>

definition sentence_scores :: "real list \<Rightarrow> string list \<Rightarrow> error + (real \<times> string) list" where
  "sentence_scores scores sentences =
     (if length scores < length sentences then Inl IndexError
      else Inr (map (\<lambda>i. (scores ! i, sentences ! i)) [0..<length sentences]))"

text \<open>
  The three lines every ranker ends with: build the pairs, sort them by score with
  \<^verbatim>\<open>reverse=True\<close>, return the sentences of the first \<^verbatim>\<open>num_sentences\<close> pairs.
\<close>

definition select_sentences :: "real list \<Rightarrow> string list \<Rightarrow> int \<Rightarrow> error + string list" where
  "select_sentences scores sentences num_sentences =
     (case sentence_scores scores sentences of
        Inl e \<Rightarrow> Inl e
      | Inr ss \<Rightarrow> Inr (map snd (py_slice_to num_sentences (py_sort_reverse fst ss))))"

section \<open>The graph ranker\<close>


definition T_dot :: "matrix \<Rightarrow> real list \<Rightarrow> real list" where
  "T_dot M s = map (\<lambda>j. sum_list (map (\<lambda>i. M ! i ! j * s ! i) [0..<length M])) [0..<length M]"

text \<open>
  \<^verbatim>\<open>np.allclose(a, b, atol=atol)\<close> with numpy's default \<^verbatim>\<open>rtol=1e-05\<close>:
  every component satisfies \<open>|a - b| \<le> atol + rtol * |b|\<close>.
\<close>

definition allclose :: "real \<Rightarrow> real list \<Rightarrow> real list \<Rightarrow> bool" where
  "allclose atol a b = list_all2 (\<lambda>x y. \<bar>x - y\<bar> \<le> atol + (1 / 10 ^ 5) * \<bar>y\<bar>) a b"

text \<open>\<^verbatim>\<open>new_scores = (1 - damping) / n + damping * similarity_matrix.T.dot(scores)\<close>\<close>

definition new_scores_of :: "matrix \<Rightarrow> real \<Rightarrow> real list \<Rightarrow> real list" where
  "new_scores_of M damping scores =
     map (\<lambda>x. (1 - damping) / real (length M) + damping * x) (T_dot M scores)"

text \<open>
  The body of \<^verbatim>\<open>for _ in range(max_iter)\<close>: the first argument counts the iterations
  that remain; \<^verbatim>\<open>break\<close> leaves the loop with \<^verbatim>\<open>scores\<close> not yet overwritten.
\<close>

fun pagerank_loop :: "matrix \<Rightarrow> real \<Rightarrow> nat \<Rightarrow> real list \<Rightarrow> real list" where
  "pagerank_loop M damping 0 scores = scores"
| "pagerank_loop M damping (Suc k) scores =
     (let new_scores = new_scores_of M damping scores in
      if allclose (1 / 10 ^ 6) scores new_scores then scores
      else pagerank_loop M damping k new_scores)"

text \<open>
  \<^verbatim>\<open>_pagerank(similarity_matrix, damping=0.85, max_iter=100)\<close>.  With \<open>n = 0\<close> the
  first iteration divides the Python float \<open>1 - damping\<close> by the Python int \<open>0\<close>.
\<close>

definition pagerank :: "matrix \<Rightarrow> real \<Rightarrow> nat \<Rightarrow> error + real list" where
  "pagerank M damping max_iter =
     (let n = length M; scores = replicate n (1 / real n) in
      if n = 0 \<and> 0 < max_iter then Inl ZeroDivisionError
      else Inr (pagerank_loop M damping max_iter scores))"

definition default_damping :: real where
  "default_damping = 85 / 100"

definition default_max_iter :: nat where
  "default_max_iter = 100"


section \<open>Strings and paths\<close>

text \<open>
  \<^verbatim>\<open>str.isspace\<close> on the code points below 256 (the characters of \<open>string\<close>):
  tab to carriage return, the four separators 28 to 31, space, NEL and no-break space.
\<close>

definition is_space :: "char \<Rightarrow> bool" where
  "is_space c = (of_char c \<in> {9, 10, 11, 12, 13, 28, 29, 30, 31, 32, 133, 160 :: nat})"

text \<open>\<^verbatim>\<open>s.strip()\<close>\<close>

definition strip :: "string \<Rightarrow> string" where
  "strip s = rev (dropWhile is_space (rev (dropWhile is_space s)))"

text \<open>\<^verbatim>\<open>s.split()\<close>: the maximal runs of non-whitespace characters.\<close>

fun split_ws_acc :: "string \<Rightarrow> string \<Rightarrow> string list" where
  "split_ws_acc cur [] = (if cur = [] then [] else [cur])"
| "split_ws_acc cur (c # cs) =
     (if is_space c then (if cur = [] then split_ws_acc [] cs else cur # split_ws_acc [] cs)
      else split_ws_acc (cur @ [c]) cs)"

definition split_ws :: "string \<Rightarrow> string list" where
  "split_ws s = split_ws_acc [] s"

text \<open>
  \<^verbatim>\<open>s.split(sep)\<close> for a non-empty separator: cut at the non-overlapping occurrences
  of \<open>sep\<close> found from the left; \<open>cur\<close> is the piece being read.
\<close>

fun split_on :: "string \<Rightarrow> string \<Rightarrow> string \<Rightarrow> string list" where
  "split_on sep cur [] = [cur]"
| "split_on sep cur (c # cs) =
     (if sep \<noteq> [] \<and> prefix sep (c # cs)
      then cur # split_on sep [] (drop (length sep - 1) cs)
      else split_on sep (cur @ [c]) cs)"

text \<open>\<^verbatim>\<open>sep.join(xs)\<close>\<close>

fun py_join :: "string \<Rightarrow> string list \<Rightarrow> string" where
  "py_join sep [] = []"
| "py_join sep [x] = x"
| "py_join sep (x # y # ys) = x @ sep @ py_join sep (y # ys)"

text \<open>\<^verbatim>\<open>int(x)\<close> of a float truncates towards zero.\<close>

definition py_int :: "real \<Rightarrow> int" where
  "py_int x = (if 0 \<le> x then \<lfloor>x\<rfloor> else \<lceil>x\<rceil>)"

text \<open>\<^verbatim>\<open>p.rfind(c)\<close>: the last index of \<open>c\<close>, or \<open>-1\<close>.\<close>

definition rfind :: "char \<Rightarrow> string \<Rightarrow> int" where
  "rfind c p =
     (if c \<in> set p then int (length p) - 1 - int (length (takeWhile (\<lambda>x. x \<noteq> c) (rev p)))
      else - 1)"

text \<open>
  \<^verbatim>\<open>os.path.splitext(p)[0]\<close> (posixpath): the extension starts at the last dot of the
  last path component, unless only dots precede it there.
\<close>

definition splitext_root :: "string \<Rightarrow> string" where
  "splitext_root p =
     (let sepIndex = rfind (CHR ''/'') p; dotIndex = rfind (CHR ''.'') p in
      if sepIndex < dotIndex
         \<and> list_ex (\<lambda>x. x \<noteq> CHR ''.'') (drop (nat (sepIndex + 1)) (take (nat dotIndex) p))
      then take (nat dotIndex) p else p)"

text \<open>\<^verbatim>\<open>os.path.join(a, b)\<close> (posixpath, two components).\<close>

definition path_join :: "string \<Rightarrow> string \<Rightarrow> string" where
  "path_join a b =
     (if b \<noteq> [] \<and> hd b = CHR ''/'' then b
      else if a = [] \<or> last a = CHR ''/'' then a @ b
      else a @ ''/'' @ b)"

definition output_dir :: string where
  "output_dir = ''outputs''"

text \<open>
  \<^verbatim>\<open>os.path.join(self.output_dir, f"{os.path.splitext(filename)[0]}<ending>")\<close>,
  the shape of every path the service builds.
\<close>

definition artifact_path :: "string \<Rightarrow> string \<Rightarrow> string" where
  "artifact_path filename ending = path_join output_dir (splitext_root filename @ ending)"

definition cleaning_metadata_path :: "string \<Rightarrow> string" where
  "cleaning_metadata_path filename = artifact_path filename ''_cleaning_metadata.json''"

section \<open>Persisted artifacts, collaborators and the summarizer's state\<close>

text \<open>
  The cleaning stage writes \<^verbatim>\<open><stem>_cleaning_metadata.json\<close>; the summarizer reads its
  keys \<^verbatim>\<open>"sentences"\<close> and \<^verbatim>\<open>"cleaned_text"\<close> and rewrites \<^verbatim>\<open>"cleaned_text"\<close>.  The
  remaining keys of that JSON object are carried in \<open>other_keys\<close>.
\<close>

record cleaning_data =
  cleaned_text :: string
  sentences :: "string list"
  other_keys :: "(string \<times> string) list"

record extractive_metadata =
  ex_summary_text :: string
  ex_summary_sentences :: "string list"
  ex_original_sentences :: nat
  ex_compression_ratio :: real
  ex_algorithm :: string
  ex_summary_ratio :: real
  ex_file_path :: string
  ex_processing_time :: string

record abstractive_metadata =
  ab_summary_text :: string
  ab_original_length :: nat
  ab_summary_length :: nat
  ab_compression_ratio :: real
  ab_model :: string
  ab_max_length :: int
  ab_min_length :: int
  ab_file_path :: string
  ab_processing_method :: string

record hybrid_metadata =
  hy_summary_text :: string
  hy_original_length :: nat
  hy_summary_length :: nat
  hy_compression_ratio :: real
  hy_extractive_ratio :: real
  hy_file_path :: string
  hy_processing_method :: string

text \<open>
  The dictionary of \<^verbatim>\<open>formatted_hybrid_summary\<close>; the key \<^verbatim>\<open>"file_path"\<close> is added
  after the dictionary was saved, so the saved copy has none.
\<close>

record formatted_summary =
  fs_title :: string
  fs_objective :: string
  fs_key_points :: "string list"
  fs_section_summary :: "(string \<times> string) list"
  fs_final_abstract :: string
  fs_processing_method :: string
  fs_file_path :: "string option"

datatype artifact =
    TextFile string
  | CleaningMetadata cleaning_data
  | ExtractiveMetadata extractive_metadata
  | AbstractiveMetadata abstractive_metadata
  | HybridMetadata hybrid_metadata
  | FormattedSummary formatted_summary

text \<open>
  A loaded abstractive summarizer, called per chunk with \<^verbatim>\<open>max_length\<close> and
  \<^verbatim>\<open>min_length\<close>; it may raise.
\<close>

type_synonym summarize_fn = "string \<Rightarrow> int \<Rightarrow> int \<Rightarrow> error + string"

text \<open>
  The libraries the service calls are parameters of the model:
  \<^item> \<open>torch_available\<close>: the module constant \<^verbatim>\<open>TORCH_AVAILABLE\<close>;
  \<^item> \<open>py_hash\<close>: the builtin \<^verbatim>\<open>hash\<close> on strings;
  \<^item> \<open>cosine_similarity_tfidf\<close>: \<^verbatim>\<open>cosine_similarity(TfidfVectorizer(...).fit_transform(sentences))\<close>;
  \<^item> \<open>tfidf_row_sums\<close>: \<^verbatim>\<open>np.array(tfidf_matrix.sum(axis=1)).flatten()\<close>;
  \<^item> \<open>lsa_row_norms k\<close>: \<^verbatim>\<open>np.linalg.norm(TruncatedSVD(n_components=k).fit_transform(tfidf_matrix), axis=1)\<close>;
  \<^item> \<open>load_pipeline\<close>: \<^verbatim>\<open>pipeline("summarization", model=...)\<close>, giving the function that
    returns \<^verbatim>\<open>[0]["summary_text"]\<close> of a call;
  \<^item> \<open>load_model\<close>: the two \<^verbatim>\<open>from_pretrained\<close> calls, giving tokenize, generate, decode;
  \<^item> \<open>section_summaries\<close>: step 4 of \<^verbatim>\<open>formatted_hybrid_summary\<close> (NLTK sentence
    tokenizer and heading search) as a function of the scrubbed text.
\<close>

record externals =
  torch_available :: bool
  py_hash :: "string \<Rightarrow> int"
  cosine_similarity_tfidf :: "string list \<Rightarrow> error + matrix"
  tfidf_row_sums :: "string list \<Rightarrow> error + real list"
  lsa_row_norms :: "int \<Rightarrow> string list \<Rightarrow> error + real list"
  load_pipeline :: "string \<Rightarrow> error + summarize_fn"
  load_model :: "string \<Rightarrow> error + summarize_fn"
  section_summaries :: "string \<Rightarrow> (string \<times> string) list"

text \<open>
  The state the operations act on: the files under \<^verbatim>\<open>outputs/\<close>, the attributes
  \<^verbatim>\<open>_similarity_cache\<close>, \<^verbatim>\<open>_summarization_pipeline\<close> and the pair
  \<^verbatim>\<open>_abstractive_model\<close>/\<^verbatim>\<open>_abstractive_tokenizer\<close> of the summarizer object, and the
  chunks handed to the abstractive collaborator so far, in call order.  The cache key
  \<^verbatim>\<open>f"textrank_{hash(...)}"\<close> is determined by the hash value, which stands for it.
\<close>

record state =
  files :: "string \<rightharpoonup> artifact"
  similarity_cache :: "int \<rightharpoonup> matrix"
  summarization_pipeline :: "summarize_fn option"
  abstractive_model :: "summarize_fn option"
  collaborator_calls :: "string list"

definition write_file :: "string \<Rightarrow> artifact \<Rightarrow> state \<Rightarrow> state" where
  "write_file path content st = st\<lparr>files := (files st)(path \<mapsto> content)\<rparr>"

section \<open>Extractive summary\<close>

definition cache_key :: "externals \<Rightarrow> string list \<Rightarrow> int" where
  "cache_key ext sents = py_hash ext (py_join '' '' sents)"

text \<open>
  \<^verbatim>\<open>similarity_matrix / (similarity_matrix.sum(axis=1, keepdims=True) + 1e-8)\<close>
\<close>

definition normalize_rows :: "matrix \<Rightarrow> matrix" where
  "normalize_rows S = map (\<lambda>row. map (\<lambda>x. x / (sum_list row + 1 / 10 ^ 8)) row) S"

definition create_similarity_matrix_async :: "externals \<Rightarrow> string list \<Rightarrow> error + matrix" where
  "create_similarity_matrix_async ext sents =
     (case cosine_similarity_tfidf ext sents of
        Inl e \<Rightarrow> Inl e
      | Inr S \<Rightarrow> Inr (normalize_rows S))"

text \<open>
  The first half of \<^verbatim>\<open>_optimized_textrank_summarize\<close>: take the matrix stored under
  the key when \<^verbatim>\<open>use_cache\<close> holds and the key is present, else compute it and, when
  \<^verbatim>\<open>use_cache\<close> holds, store it.
\<close>

definition cached_similarity_matrix ::
  "externals \<Rightarrow> string list \<Rightarrow> bool \<Rightarrow> state \<Rightarrow> state \<times> (error + matrix)" where
  "cached_similarity_matrix ext sents use_cache st =
     (let key = cache_key ext sents in
      case (if use_cache then similarity_cache st key else None) of
        Some M \<Rightarrow> (st, Inr M)
      | None \<Rightarrow>
          (case create_similarity_matrix_async ext sents of
             Inl e \<Rightarrow> (st, Inl e)
           | Inr M \<Rightarrow>
               (if use_cache then st\<lparr>similarity_cache := (similarity_cache st)(key \<mapsto> M)\<rparr> else st,
                Inr M)))"

definition optimized_textrank_summarize ::
  "externals \<Rightarrow> string list \<Rightarrow> int \<Rightarrow> bool \<Rightarrow> state \<Rightarrow> state \<times> (error + string list)" where
  "optimized_textrank_summarize ext sents num_sentences use_cache st =
     (case cached_similarity_matrix ext sents use_cache st of
        (st', Inl e) \<Rightarrow> (st', Inl e)
      | (st', Inr M) \<Rightarrow>
          (st', case pagerank M default_damping default_max_iter of
                  Inl e \<Rightarrow> Inl e
                | Inr scores \<Rightarrow> select_sentences scores sents num_sentences))"

definition optimized_tfidf_summarize :: "externals \<Rightarrow> string list \<Rightarrow> int \<Rightarrow> error + string list" where
  "optimized_tfidf_summarize ext sents num_sentences =
     (case tfidf_row_sums ext sents of
        Inl e \<Rightarrow> Inl e
      | Inr scores \<Rightarrow> select_sentences scores sents num_sentences)"

definition optimized_lsa_summarize :: "externals \<Rightarrow> string list \<Rightarrow> int \<Rightarrow> error + string list" where
  "optimized_lsa_summarize ext sents num_sentences =
     (case lsa_row_norms ext (min num_sentences (int (length sents))) sents of
        Inl e \<Rightarrow> Inl e
      | Inr scores \<Rightarrow> select_sentences scores sents num_sentences)"

text \<open>\<^verbatim>\<open>num_sentences = max(1, int(original_sentences * summary_ratio))\<close>\<close>

definition num_sentences_of :: "nat \<Rightarrow> real \<Rightarrow> int" where
  "num_sentences_of original_sentences summary_ratio =
     max 1 (py_int (real original_sentences * summary_ratio))"

text \<open>The algorithm dispatch of \<^verbatim>\<open>extractive_summary\<close>.\<close>

definition run_algorithm ::
  "externals \<Rightarrow> string \<Rightarrow> string list \<Rightarrow> int \<Rightarrow> bool \<Rightarrow> state \<Rightarrow> state \<times> (error + string list)" where
  "run_algorithm ext algorithm sents num_sentences use_cache st =
     (if algorithm = ''textrank'' then optimized_textrank_summarize ext sents num_sentences use_cache st
      else if algorithm = ''tfidf'' then (st, optimized_tfidf_summarize ext sents num_sentences)
      else if algorithm = ''lsa'' then (st, optimized_lsa_summarize ext sents num_sentences)
      else (st, Inl ValueError))"

text \<open>The tail of \<^verbatim>\<open>extractive_summary\<close>: join, write the text file and the metadata.\<close>

definition save_extractive ::
  "string \<Rightarrow> real \<Rightarrow> string \<Rightarrow> nat \<Rightarrow> string list \<Rightarrow> state \<Rightarrow> state \<times> (error + extractive_metadata)" where
  "save_extractive filename summary_ratio algorithm original_sentences summary_sentences st =
     (let summary_text = py_join '' '' summary_sentences;
          compression_ratio = real (length summary_sentences) / real original_sentences;
          output_path = artifact_path filename ''_extractive_summary.txt'';
          st1 = write_file output_path (TextFile summary_text) st;
          metadata = \<lparr>ex_summary_text = summary_text,
                      ex_summary_sentences = summary_sentences,
                      ex_original_sentences = original_sentences,
                      ex_compression_ratio = compression_ratio,
                      ex_algorithm = algorithm,
                      ex_summary_ratio = summary_ratio,
                      ex_file_path = output_path,
                      ex_processing_time = ''optimized''\<rparr>;
          metadata_path = artifact_path filename ''_extractive_summary_metadata.json''
      in (write_file metadata_path (ExtractiveMetadata metadata) st1, Inr metadata))"

definition extractive_summary ::
  "externals \<Rightarrow> string \<Rightarrow> real \<Rightarrow> string \<Rightarrow> bool \<Rightarrow> state \<Rightarrow> state \<times> (error + extractive_metadata)" where
  "extractive_summary ext filename summary_ratio algorithm use_cache st =
     (case files st (cleaning_metadata_path filename) of
        None \<Rightarrow> (st, Inl FileNotFoundError)
      | Some (CleaningMetadata cleaning_data) \<Rightarrow>
          (let original_sentences = length (sentences cleaning_data) in
           if original_sentences = 0 then (st, Inl ValueError)
           else
             (case run_algorithm ext algorithm (sentences cleaning_data)
                     (num_sentences_of original_sentences summary_ratio) use_cache st of
                (st1, Inl e) \<Rightarrow> (st1, Inl e)
              | (st1, Inr summary_sentences) \<Rightarrow>
                  save_extractive filename summary_ratio algorithm original_sentences
                    summary_sentences st1))
      | Some _ \<Rightarrow> (st, Inl KeyError))"

section \<open>Abstractive summary\<close>

text \<open>
  The chunking loop shared by \<^verbatim>\<open>_pipeline_summarize\<close> and \<^verbatim>\<open>_chunked_summarize\<close>:
  sentences are appended to \<^verbatim>\<open>temp_chunk\<close> while the word count stays within
  \<^verbatim>\<open>chunk_size\<close>; a full chunk is stripped and stored.
\<close>

fun chunk_loop :: "nat \<Rightarrow> string list \<Rightarrow> string list \<Rightarrow> string \<Rightarrow> string list \<times> string" where
  "chunk_loop chunk_size [] chunks temp_chunk = (chunks, temp_chunk)"
| "chunk_loop chunk_size (sentence # rest) chunks temp_chunk =
     (if length (split_ws temp_chunk) + length (split_ws sentence) \<le> chunk_size
      then chunk_loop chunk_size rest chunks (temp_chunk @ sentence @ ''. '')
      else chunk_loop chunk_size rest (chunks @ [strip temp_chunk]) (sentence @ ''. ''))"

definition make_chunks :: "nat \<Rightarrow> string \<Rightarrow> string list" where
  "make_chunks chunk_size text =
     (case chunk_loop chunk_size (split_on ''. '' [] text) [] [] of
        (chunks, temp_chunk) \<Rightarrow>
          if temp_chunk \<noteq> [] then chunks @ [strip temp_chunk] else chunks)"

text \<open>
  The second loop of \<^verbatim>\<open>_pipeline_summarize\<close>: only a chunk of more than 50 characters
  is handed to the pipeline; each call is recorded in \<open>collaborator_calls\<close>.
\<close>

fun pipeline_loop ::
  "summarize_fn \<Rightarrow> int \<Rightarrow> int \<Rightarrow> string list \<Rightarrow> string list \<Rightarrow> state \<Rightarrow> state \<times> (error + string list)" where
  "pipeline_loop pipe max_length min_length [] summaries st = (st, Inr summaries)"
| "pipeline_loop pipe max_length min_length (chunk # chunks) summaries st =
     (if 50 < length (strip chunk) then
        (let st1 = st\<lparr>collaborator_calls := collaborator_calls st @ [chunk]\<rparr> in
         case pipe chunk max_length min_length of
           Inl e \<Rightarrow> (st1, Inl e)
         | Inr summary \<Rightarrow> pipeline_loop pipe max_length min_length chunks (summaries @ [summary]) st1)
      else pipeline_loop pipe max_length min_length chunks summaries st)"

text \<open>
  \<^verbatim>\<open>_pipeline_summarize\<close>; the pipeline object \<^verbatim>\<open>self._summarization_pipeline\<close> is
  passed in by the caller, which has checked that it is loaded.
\<close>

definition pipeline_summarize ::
  "summarize_fn \<Rightarrow> string \<Rightarrow> int \<Rightarrow> int \<Rightarrow> state \<Rightarrow> state \<times> (error + string)" where
  "pipeline_summarize pipe text max_length min_length st =
     (case pipeline_loop pipe max_length min_length (make_chunks 1000 text) [] st of
        (st1, Inl e) \<Rightarrow> (st1, Inl e)
      | (st1, Inr summaries) \<Rightarrow> (st1, Inr (py_join '' '' summaries)))"

text \<open>\<^verbatim>\<open>_chunked_summarize\<close> sends every chunk to the model.\<close>

fun chunked_loop ::
  "summarize_fn \<Rightarrow> int \<Rightarrow> int \<Rightarrow> string list \<Rightarrow> string list \<Rightarrow> state \<Rightarrow> state \<times> (error + string list)" where
  "chunked_loop model max_length min_length [] summaries st = (st, Inr summaries)"
| "chunked_loop model max_length min_length (chunk # chunks) summaries st =
     (let st1 = st\<lparr>collaborator_calls := collaborator_calls st @ [chunk]\<rparr> in
      case model chunk max_length min_length of
        Inl e \<Rightarrow> (st1, Inl e)
      | Inr summary \<Rightarrow> chunked_loop model max_length min_length chunks (summaries @ [summary]) st1)"

definition chunked_summarize ::
  "summarize_fn \<Rightarrow> string \<Rightarrow> int \<Rightarrow> int \<Rightarrow> state \<Rightarrow> state \<times> (error + string)" where
  "chunked_summarize model text max_length min_length st =
     (case chunked_loop model max_length min_length (make_chunks 1024 text) [] st of
        (st1, Inl e) \<Rightarrow> (st1, Inl e)
      | (st1, Inr summaries) \<Rightarrow> (st1, Inr (py_join '' '' summaries)))"

text \<open>
  The middle of \<^verbatim>\<open>abstractive_summary\<close>: load the pipeline or the model on first use
  and summarize.  A loaded pipeline is never \<^verbatim>\<open>None\<close>, so \<^verbatim>\<open>use_pipeline\<close> alone
  decides between the two paths once loading has succeeded.
\<close>

definition summarize_text ::
  "externals \<Rightarrow> string \<Rightarrow> int \<Rightarrow> int \<Rightarrow> string \<Rightarrow> bool \<Rightarrow> state \<Rightarrow> state \<times> (error + string)" where
  "summarize_text ext text max_length min_length model use_pipeline st =
     (if use_pipeline then
        (case summarization_pipeline st of
           Some pipe \<Rightarrow> pipeline_summarize pipe text max_length min_length st
         | None \<Rightarrow>
             (case load_pipeline ext model of
                Inl e \<Rightarrow> (st, Inl e)
              | Inr pipe \<Rightarrow>
                  pipeline_summarize pipe text max_length min_length
                    (st\<lparr>summarization_pipeline := Some pipe\<rparr>)))
      else
        (case abstractive_model st of
           Some m \<Rightarrow> chunked_summarize m text max_length min_length st
         | None \<Rightarrow>
             (case load_model ext model of
                Inl e \<Rightarrow> (st, Inl e)
              | Inr m \<Rightarrow>
                  chunked_summarize m text max_length min_length
                    (st\<lparr>abstractive_model := Some m\<rparr>))))"

definition save_abstractive ::
  "string \<Rightarrow> int \<Rightarrow> int \<Rightarrow> string \<Rightarrow> bool \<Rightarrow> nat \<Rightarrow> string \<Rightarrow> state
     \<Rightarrow> state \<times> (error + abstractive_metadata)" where
  "save_abstractive filename max_length min_length model use_pipeline original_length summary_text st =
     (let summary_length = length summary_text;
          compression_ratio =
            (if 0 < original_length then real summary_length / real original_length else 0);
          output_path = artifact_path filename ''_abstractive_summary.txt'';
          st1 = write_file output_path (TextFile summary_text) st;
          metadata = \<lparr>ab_summary_text = summary_text,
                      ab_original_length = original_length,
                      ab_summary_length = summary_length,
                      ab_compression_ratio = compression_ratio,
                      ab_model = model,
                      ab_max_length = max_length,
                      ab_min_length = min_length,
                      ab_file_path = output_path,
                      ab_processing_method = (if use_pipeline then ''pipeline'' else ''chunked'')\<rparr>;
          metadata_path = artifact_path filename ''_abstractive_summary_metadata.json''
      in (write_file metadata_path (AbstractiveMetadata metadata) st1, Inr metadata))"

definition abstractive_summary ::
  "externals \<Rightarrow> string \<Rightarrow> int \<Rightarrow> int \<Rightarrow> string \<Rightarrow> bool \<Rightarrow> state
     \<Rightarrow> state \<times> (error + abstractive_metadata)" where
  "abstractive_summary ext filename max_length min_length model use_pipeline st =
     (if \<not> torch_available ext then (st, Inl ImportError)
      else
        (case files st (cleaning_metadata_path filename) of
           None \<Rightarrow> (st, Inl FileNotFoundError)
         | Some (CleaningMetadata cleaning_data) \<Rightarrow>
             (let text = cleaned_text cleaning_data in
              case summarize_text ext text max_length min_length model use_pipeline st of
                (st1, Inl e) \<Rightarrow> (st1, Inl e)
              | (st1, Inr summary_text) \<Rightarrow>
                  save_abstractive filename max_length min_length model use_pipeline
                    (length text) summary_text st1)
         | Some _ \<Rightarrow> (st, Inl KeyError)))"

section \<open>Hybrid summary\<close>

definition bart_large_cnn :: string where
  "bart_large_cnn = ''facebook/bart-large-cnn''"

text \<open>
  \<^verbatim>\<open>hybrid_summary\<close>: the extractive pass, the override of \<^verbatim>\<open>"cleaned_text"\<close>, the
  abstractive pass, then the statements after it, which run only when it returned.
\<close>

definition hybrid_summary ::
  "externals \<Rightarrow> string \<Rightarrow> real \<Rightarrow> int \<Rightarrow> int \<Rightarrow> bool \<Rightarrow> state \<Rightarrow> state \<times> (error + hybrid_metadata)" where
  "hybrid_summary ext filename extractive_ratio max_length min_length use_pipeline st =
     (case extractive_summary ext filename extractive_ratio ''textrank'' True st of
        (st1, Inl e) \<Rightarrow> (st1, Inl e)
      | (st1, Inr extractive_result) \<Rightarrow>
          (case files st1 (cleaning_metadata_path filename) of
             None \<Rightarrow> (st1, Inl FileNotFoundError)
           | Some (CleaningMetadata cleaning_data) \<Rightarrow>
               (let original_cleaned_text = cleaned_text cleaning_data;
                    st2 = write_file (cleaning_metadata_path filename)
                            (CleaningMetadata
                               (cleaning_data\<lparr>cleaned_text := ex_summary_text extractive_result\<rparr>))
                            st1
                in
                case abstractive_summary ext filename max_length min_length bart_large_cnn
                       use_pipeline st2 of
                  (st3, Inl e) \<Rightarrow> (st3, Inl e)
                | (st3, Inr hybrid_result) \<Rightarrow>
                    (let st4 = write_file (cleaning_metadata_path filename)
                                 (CleaningMetadata
                                    (cleaning_data\<lparr>cleaned_text := original_cleaned_text\<rparr>))
                                 st3;
                         output_path = artifact_path filename ''_hybrid_summary.txt'';
                         st5 = write_file output_path (TextFile (ab_summary_text hybrid_result)) st4;
                         metadata = \<lparr>hy_summary_text = ab_summary_text hybrid_result,
                                     hy_original_length = length original_cleaned_text,
                                     hy_summary_length = ab_summary_length hybrid_result,
                                     hy_compression_ratio = ab_compression_ratio hybrid_result,
                                     hy_extractive_ratio = extractive_ratio,
                                     hy_file_path = output_path,
                                     hy_processing_method = ''optimized_hybrid''\<rparr>;
                         metadata_path = artifact_path filename ''_hybrid_summary_metadata.json''
                     in (write_file metadata_path (HybridMetadata metadata) st5, Inr metadata)))
           | Some _ \<Rightarrow> (st1, Inl KeyError)))"

section \<open>Retrieving a stored summary\<close>

text \<open>
  \<^verbatim>\<open>get_summary\<close> reads \<^verbatim>\<open><stem>_<summary_type>_summary_metadata.json\<close> and returns its
  content.
\<close>

definition summary_metadata_path :: "string \<Rightarrow> string \<Rightarrow> string" where
  "summary_metadata_path filename summary_type =
     artifact_path filename (''_'' @ summary_type @ ''_summary_metadata.json'')"

definition get_summary :: "string \<Rightarrow> string \<Rightarrow> state \<Rightarrow> error + artifact" where
  "get_summary filename summary_type st =
     (case files st (summary_metadata_path filename summary_type) of
        None \<Rightarrow> Inl FileNotFoundError
      | Some metadata \<Rightarrow> Inr metadata)"

section \<open>Formatted hybrid summary\<close>

subsection \<open>The four substitutions of step 0\<close>

text \<open>
  Each pattern of step 0 is a sequence of single-character classes under a greedy
  quantifier \<open>{lo,hi}\<close> (\<open>hi = None\<close>: unbounded).  \<open>re_match\<close> is the backtracking
  match at the start of a string: an item first takes as many characters as it can and
  gives them back one at a time until the rest of the pattern matches; the result is the
  text after the match.
\<close>

datatype re_item = Rep "char \<Rightarrow> bool" nat "nat option"

fun first_some :: "'a option list \<Rightarrow> 'a option" where
  "first_some [] = None"
| "first_some (None # xs) = first_some xs"
| "first_some (Some x # xs) = Some x"

fun re_match :: "re_item list \<Rightarrow> string \<Rightarrow> string option" where
  "re_match [] s = Some s"
| "re_match (Rep cls lo hi # items) s =
     (let run = length (takeWhile cls s);
          top = (case hi of None \<Rightarrow> run | Some h \<Rightarrow> min h run)
      in first_some (map (\<lambda>k. re_match items (drop k s)) (rev [lo..<Suc top])))"

text \<open>
  \<^verbatim>\<open>re.sub(pattern, '', text)\<close>: the leftmost match is deleted and the scan goes on
  behind it.  An empty match deletes nothing.
\<close>

fun re_sub :: "re_item list \<Rightarrow> string \<Rightarrow> string" where
  "re_sub pat [] = []"
| "re_sub pat (c # cs) =
     (case re_match pat (c # cs) of
        None \<Rightarrow> c # re_sub pat cs
      | Some rest \<Rightarrow>
          if length rest < length (c # cs) then re_sub pat rest else c # re_sub pat cs)"

text \<open>\<^verbatim>\<open>\d\<close>, \<^verbatim>\<open>\s\<close>, \<^verbatim>\<open>\S\<close> and literal characters, on the code points below 256.\<close>

definition is_digit :: "char \<Rightarrow> bool" where
  "is_digit c = (48 \<le> (of_char c :: nat) \<and> (of_char c :: nat) \<le> 57)"

definition one_of :: "string \<Rightarrow> char \<Rightarrow> bool" where
  "one_of cs c = (c \<in> set cs)"

definition once :: "(char \<Rightarrow> bool) \<Rightarrow> re_item" where
  "once cls = Rep cls 1 (Some 1)"

text \<open>\<^verbatim>\<open>Page\<close> under \<^verbatim>\<open>re.IGNORECASE\<close>\<close>

definition page_word :: "re_item list" where
  "page_word = [once (one_of ''Pp''), once (one_of ''Aa''), once (one_of ''Gg''), once (one_of ''Ee'')]"

text \<open>\<^verbatim>\<open>[-]{2,}\s*Page\s*\d+\s*[-]{2,}\<close>\<close>

definition page_marker_pattern :: "re_item list" where
  "page_marker_pattern =
     [Rep (one_of ''-'') 2 None, Rep is_space 0 None] @ page_word
     @ [Rep is_space 0 None, Rep is_digit 1 None, Rep is_space 0 None, Rep (one_of ''-'') 2 None]"

text \<open>\<^verbatim>\<open>Page\s*\d+\<close>\<close>

definition page_number_pattern :: "re_item list" where
  "page_number_pattern = page_word @ [Rep is_space 0 None, Rep is_digit 1 None]"

text \<open>\<^verbatim>\<open>\S+@\S+\<close>\<close>

definition email_pattern :: "re_item list" where
  "email_pattern =
     [Rep (\<lambda>c. \<not> is_space c) 1 None, once (one_of ''@''), Rep (\<lambda>c. \<not> is_space c) 1 None]"

text \<open>\<^verbatim>\<open>\+?\d[\d\s\-]{7,}\d\<close>\<close>

definition phone_pattern :: "re_item list" where
  "phone_pattern =
     [Rep (one_of ''+'') 0 (Some 1), once is_digit,
      Rep (\<lambda>c. is_digit c \<or> is_space c \<or> c = CHR ''-'') 7 None, once is_digit]"

definition scrub :: "string \<Rightarrow> string" where
  "scrub text =
     re_sub phone_pattern
       (re_sub email_pattern
          (re_sub page_number_pattern
             (re_sub page_marker_pattern text)))"

subsection \<open>Title and objective\<close>

definition newline :: string where
  "newline = [CHR 0x0A]"

text \<open>
  Step 3: the sentences of the abstract, the first line of three to twelve words as
  title (else the first sentence of the abstract, else the placeholder), the second and
  third sentence as objective.
\<close>

definition abstract_sentences :: "string \<Rightarrow> string list" where
  "abstract_sentences final_abstract =
     filter (\<lambda>s. s \<noteq> []) (map strip (split_on ''.'' [] final_abstract))"

definition detect_title :: "string \<Rightarrow> string list \<Rightarrow> string" where
  "detect_title cleaned sents =
     (if cleaned \<noteq> [] then
        (case find (\<lambda>line. 3 \<le> length (split_ws line) \<and> length (split_ws line) \<le> 12)
                (filter (\<lambda>line. line \<noteq> []) (map strip (split_on newline [] cleaned))) of
           Some line \<Rightarrow> line
         | None \<Rightarrow> (case sents of [] \<Rightarrow> ''Untitled'' | s # _ \<Rightarrow> s))
      else ''Untitled'')"

definition detect_objective :: "string list \<Rightarrow> string" where
  "detect_objective sents =
     (if 1 < length sents then py_join '' '' (take 2 (drop 1 sents))
      else ''Objective not detected'')"

subsection \<open>The operation\<close>

text \<open>
  Step 0 of \<^verbatim>\<open>formatted_hybrid_summary\<close>: when the cleaning artifact exists, its
  \<^verbatim>\<open>"cleaned_text"\<close> is scrubbed and the artifact is written back.  The path holds a
  cleaning artifact or nothing; any other content is treated as absent here and raises
  \<open>KeyError\<close> in the abstractive pass that follows.
\<close>

definition scrub_artifact :: "string \<Rightarrow> state \<Rightarrow> string \<times> state" where
  "scrub_artifact filename st =
     (case files st (cleaning_metadata_path filename) of
        Some (CleaningMetadata cleaning_data) \<Rightarrow>
          (let cleaned = scrub (cleaned_text cleaning_data)
           in (cleaned,
               write_file (cleaning_metadata_path filename)
                 (CleaningMetadata (cleaning_data\<lparr>cleaned_text := cleaned\<rparr>)) st))
      | _ \<Rightarrow> ([], st))"

definition formatted_hybrid_summary ::
  "externals \<Rightarrow> string \<Rightarrow> real \<Rightarrow> int \<Rightarrow> int \<Rightarrow> bool \<Rightarrow> state
     \<Rightarrow> state \<times> (error + formatted_summary)" where
  "formatted_hybrid_summary ext filename extractive_ratio max_length min_length use_pipeline st =
     (case scrub_artifact filename st of
        (cleaned, st0) \<Rightarrow>
          (case abstractive_summary ext filename max_length min_length bart_large_cnn
                  use_pipeline st0 of
             (st1, Inl e) \<Rightarrow> (st1, Inl e)
           | (st1, Inr abstractive_result) \<Rightarrow>
               (case extractive_summary ext filename extractive_ratio ''textrank'' True st1 of
                  (st2, Inl e) \<Rightarrow> (st2, Inl e)
                | (st2, Inr extractive_result) \<Rightarrow>
                    (let final_abstract = ab_summary_text abstractive_result;
                         sents = abstract_sentences final_abstract;
                         formatted =
                           \<lparr>fs_title = detect_title cleaned sents,
                            fs_objective = detect_objective sents,
                            fs_key_points = map strip (ex_summary_sentences extractive_result),
                            fs_section_summary = section_summaries ext cleaned,
                            fs_final_abstract = final_abstract,
                            fs_processing_method = ''optimized_formatted'',
                            fs_file_path = None\<rparr>;
                         output_path = artifact_path filename ''_formatted_summary.json''
                     in (write_file output_path (FormattedSummary formatted) st2,
                         Inr (formatted\<lparr>fs_file_path := Some output_path\<rparr>))))))"

section \<open>Reference definitions and sample documents\<close>




text \<open>
  Collaborators for the evaluations below.  The sample sentences share no word, so
  their cosine similarity matrix is the identity; the summarization model answers
  every chunk with one fixed sentence; the two direct rankers are not installed.
  \<open>sample_sections\<close> is what step 4 yields on the sample texts: a text that starts
  with a capital letter and has no line break is one heading with an empty body, the
  text with a leading blank falls back to the four automatic sections.
\<close>

definition sample_sections :: "string \<Rightarrow> (string \<times> string) list" where
  "sample_sections cleaned =
     (if cleaned = ''Results improved. Costs fell.''
      then [(''Results improved. Costs fell.'', [])]
      else [(''Introduction'', ''Results improved.''), (''Applications'', ''Costs fell.''),
            (''Challenges'', []), (''Future'', [])])"

definition identity_matrix :: "nat \<Rightarrow> matrix" where
  "identity_matrix n = map (\<lambda>i. map (\<lambda>j. if i = j then 1 else 0) [0..<n]) [0..<n]"

definition sample_model :: summarize_fn where
  "sample_model chunk max_length min_length = Inr ''Results improved.''"

definition sample_externals :: externals where
  "sample_externals =
     \<lparr>torch_available = True,
      py_hash = (\<lambda>s. int (length s)),
      cosine_similarity_tfidf = (\<lambda>sents. Inr (identity_matrix (length sents))),
      tfidf_row_sums = (\<lambda>sents. Inl CollaboratorError),
      lsa_row_norms = (\<lambda>k sents. Inl CollaboratorError),
      load_pipeline = (\<lambda>model. Inr sample_model),
      load_model = (\<lambda>model. Inr sample_model),
      section_summaries = sample_sections\<rparr>"

text \<open>A two-sentence report, and the same text cleaned into a single sentence.\<close>

definition report :: cleaning_data where
  "report =
     \<lparr>cleaned_text = ''Results improved. Costs fell.'',
      sentences = [''Results improved.'', ''Costs fell.''],
      other_keys = []\<rparr>"

definition memo :: cleaning_data where
  "memo =
     \<lparr>cleaned_text = ''Results improved. Costs fell.'',
      sentences = [''Results improved. Costs fell.''],
      other_keys = []\<rparr>"

text \<open>A report whose cleaned text still carries a page number.\<close>

definition paged_report :: cleaning_data where
  "paged_report =
     \<lparr>cleaned_text = ''Page 3 Results improved. Costs fell.'',
      sentences = [''Page 3 Results improved.'', ''Costs fell.''],
      other_keys = []\<rparr>"

definition sample_state :: "(string \<rightharpoonup> artifact) \<Rightarrow> state" where
  "sample_state fs =
     \<lparr>files = fs, similarity_cache = Map.empty, summarization_pipeline = None,
      abstractive_model = None, collaborator_calls = []\<rparr>"

definition report_state :: state where
  "report_state =
     sample_state [cleaning_metadata_path ''report.pdf'' \<mapsto> CleaningMetadata report]"

definition two_documents_state :: state where
  "two_documents_state =
     sample_state [cleaning_metadata_path ''memo.pdf'' \<mapsto> CleaningMetadata memo,
                   cleaning_metadata_path ''report.pdf'' \<mapsto> CleaningMetadata report]"

definition paged_report_state :: state where
  "paged_report_state =
     sample_state [cleaning_metadata_path ''paged.pdf'' \<mapsto> CleaningMetadata paged_report]"

text \<open>A cleaned text of exactly fifty characters.\<close>

definition fifty_characters :: string where
  "fifty_characters = ''Quarterly results improved while total costs fell.''"



text \<open>
  The summarization pipeline is loaded already, or loading it for \<open>model\<close> succeeds.
\<close>

definition pipeline_available :: "externals \<Rightarrow> string \<Rightarrow> state \<Rightarrow> bool" where
  "pipeline_available ext model st =
     (case summarization_pipeline st of
        Some pipe \<Rightarrow> True
      | None \<Rightarrow> (case load_pipeline ext model of Inl e \<Rightarrow> False | Inr pipe \<Rightarrow> True))"

text \<open>
  Every chunk that \<^verbatim>\<open>_pipeline_summarize\<close> builds from the text has at most 50
  characters after trimming.
\<close>

definition short_chunks :: "string \<Rightarrow> bool" where
  "short_chunks text = list_all (\<lambda>chunk. length (strip chunk) \<le> 50) (make_chunks 1000 text)"

text \<open>
  The cache holds under the key of the corpus either nothing or the matrix computed for
  that corpus.
\<close>

definition cache_entry_ok :: "externals \<Rightarrow> state \<Rightarrow> string list \<Rightarrow> bool" where
  "cache_entry_ok ext st sents =
     (case similarity_cache st (cache_key ext sents) of
        None \<Rightarrow> True
      | Some M \<Rightarrow> create_similarity_matrix_async ext sents = Inr M)"

section \<open>Stability of the ranking\<close>

lemma insort_key_map_fun:
  "insort_key f (g x) (map g ys) = map g (insort_key (\<lambda>a. f (g a)) x ys)"
  by (induction ys) auto

lemma sort_key_map_fun: "sort_key f (map g xs) = map g (sort_key (\<lambda>a. f (g a)) xs)"
  by (induction xs) (auto simp: insort_key_map_fun)

lemma py_sort_reverse_map:
  "py_sort_reverse f (map g xs) = map g (py_sort_reverse (\<lambda>a. f (g a)) xs)"
  by (simp add: py_sort_reverse_def rev_map sort_key_map_fun)

lemma py_sort_reverse_set: "set (py_sort_reverse f xs) = set xs"
  by (simp add: py_sort_reverse_def)

lemma py_sort_reverse_distinct: "distinct (py_sort_reverse f xs) = distinct xs"
  by (simp add: py_sort_reverse_def)

lemma py_sort_reverse_length: "length (py_sort_reverse f xs) = length xs"
  by (simp add: py_sort_reverse_def)

lemma py_sort_reverse_descending:
  "sorted_wrt (\<lambda>a b. f b \<le> f a) (py_sort_reverse f xs)"
proof -
  have "sorted (map f (sort_key f (rev xs)))" by (rule sorted_sort_key)
  then have "sorted_wrt (\<lambda>a b. f a \<le> f b) (sort_key f (rev xs))"
    by (simp add: sorted_map)
  then show ?thesis
    by (simp add: py_sort_reverse_def sorted_wrt_rev)
qed

lemma py_sort_reverse_stable:
  "filter (\<lambda>y. f y = k) (py_sort_reverse f xs) = filter (\<lambda>y. f y = k) xs"
proof -
  have "filter (\<lambda>y. f y = k) (py_sort_reverse f xs)
      = rev (filter (\<lambda>y. f y = k) (sort_key f (rev xs)))"
    by (simp add: py_sort_reverse_def rev_filter)
  also have "\<dots> = rev (filter (\<lambda>y. f y = k) (rev xs))"
    by (simp only: sort_key_stable)
  also have "\<dots> = filter (\<lambda>y. f y = k) xs"
    by (simp add: rev_filter)
  finally show ?thesis .
qed

lemma sorted_wrt_filter_nth:
  assumes "sorted_wrt R (filter P ys)" "p < q" "q < length ys" "P (ys ! p)" "P (ys ! q)"
  shows "R (ys ! p) (ys ! q)"
proof -
  have split: "ys = take p ys @ ys ! p # drop (Suc p) ys"
    using assms(2,3) by (simp add: id_take_nth_drop)
  have "ys ! q \<in> set (drop (Suc p) ys)"
  proof -
    have "drop (Suc p) ys ! (q - Suc p) = ys ! q" using assms(2,3) by simp
    moreover have "q - Suc p < length (drop (Suc p) ys)" using assms(2,3) by simp
    ultimately show ?thesis by (metis nth_mem)
  qed
  then have mem: "ys ! q \<in> set (filter P (drop (Suc p) ys))" using assms(5) by simp
  have "filter P ys = filter P (take p ys) @ ys ! p # filter P (drop (Suc p) ys)"
    using assms(4) by (subst split) simp
  with assms(1) have "sorted_wrt R (filter P (take p ys) @ ys ! p # filter P (drop (Suc p) ys))"
    by simp
  then have "\<forall>z \<in> set (filter P (drop (Suc p) ys)). R (ys ! p) z"
    by (simp add: sorted_wrt_append)
  with mem show ?thesis by blast
qed

lemma py_sort_reverse_ties:
  assumes "p < q" "q < n" "f (py_sort_reverse f [0..<n] ! p) = f (py_sort_reverse f [0..<n] ! q)"
  shows "py_sort_reverse f [0..<n] ! p < py_sort_reverse f [0..<n] ! q"
proof -
  let ?ys = "py_sort_reverse f [0..<n]"
  let ?k = "f (?ys ! q)"
  have "filter (\<lambda>y. f y = ?k) ?ys = filter (\<lambda>y. f y = ?k) [0..<n]"
    by (rule py_sort_reverse_stable)
  moreover have "sorted_wrt (<) (filter (\<lambda>y. f y = ?k) [0..<n])"
    by (intro sorted_wrt_filter) (simp add: sorted_wrt_upt)
  ultimately have "sorted_wrt (<) (filter (\<lambda>y. f y = ?k) ?ys)" by simp
  then show ?thesis
    using assms by (intro sorted_wrt_filter_nth[where P="\<lambda>y. f y = ?k" and R="(<)"])
      (simp_all add: py_sort_reverse_length)
qed

lemma py_slice_to_map: "py_slice_to k (map f xs) = map f (py_slice_to k xs)"
  by (simp add: py_slice_to_def take_map)

text \<open>
  Claim C7.  The three rankers sort the pairs \<open>(scores[i], sentences[i])\<close> with
  \<open>py_sort_reverse fst\<close> and return the sentences of the first \<open>num_sentences\<close>
  pairs.  The sorted list lists the corpus indices in an order \<open>perm\<close> in which scores
  never increase and in which, of two sentences with the same score, the one with the
  lower corpus index comes first; the ranker's output is the sentences at the leading
  indices of \<open>perm\<close>.
\<close>

theorem ranking_ties_keep_corpus_order:
  assumes "sentence_scores scores sents = Inr ss"
  shows "\<exists>perm. distinct perm \<and> set perm = {0..<length sents}
           \<and> py_sort_reverse fst ss = map (\<lambda>i. (scores ! i, sents ! i)) perm
           \<and> select_sentences scores sents num_sentences
               = Inr (map (\<lambda>i. sents ! i) (py_slice_to num_sentences perm))
           \<and> (\<forall>p q. p < q \<and> q < length perm \<longrightarrow>
                 scores ! (perm ! q) \<le> scores ! (perm ! p)
               \<and> (scores ! (perm ! p) = scores ! (perm ! q) \<longrightarrow> perm ! p < perm ! q))"
proof -
  let ?n = "length sents"
  let ?f = "\<lambda>i. scores ! i"
  let ?perm = "py_sort_reverse ?f [0..<?n]"
  from assms have ss: "ss = map (\<lambda>i. (scores ! i, sents ! i)) [0..<?n]"
    by (auto simp: sentence_scores_def split: if_splits)
  have 1: "distinct ?perm" by (simp add: py_sort_reverse_distinct)
  have 2: "set ?perm = {0..<?n}" by (simp add: py_sort_reverse_set)
  have 3: "py_sort_reverse fst ss = map (\<lambda>i. (scores ! i, sents ! i)) ?perm"
    unfolding ss by (simp add: py_sort_reverse_map)
  have 4: "scores ! (?perm ! q) \<le> scores ! (?perm ! p)" if "p < q" "q < length ?perm" for p q
    using py_sort_reverse_descending[of ?f "[0..<?n]"] that
    by (simp add: sorted_wrt_iff_nth_less)
  have 5: "?perm ! p < ?perm ! q"
    if "p < q" "q < length ?perm" "scores ! (?perm ! p) = scores ! (?perm ! q)" for p q
    using that by (intro py_sort_reverse_ties) (simp_all add: py_sort_reverse_length)
  have 6: "select_sentences scores sents num_sentences
             = Inr (map (\<lambda>i. sents ! i) (py_slice_to num_sentences ?perm))"
    using assms by (simp add: select_sentences_def 3 py_slice_to_map comp_def)
  show ?thesis
    using 1 2 3 4 5 6 by (intro exI[of _ ?perm]) blast
qed

theorem ranking_ties_keep_corpus_order_witness:
  "sentence_scores [1 / 2, 7 / 10, 1 / 2] [''a'', ''b'', ''c'']
     = Inr [(1 / 2, ''a''), (7 / 10, ''b''), (1 / 2, ''c'')]
   \<and> (\<exists>perm. distinct perm \<and> set perm = {0..<length [''a'', ''b'', ''c'']}
         \<and> py_sort_reverse fst [(1 / 2, ''a''), (7 / 10, ''b''), (1 / 2, ''c'')]
             = map (\<lambda>i. ([1 / 2, 7 / 10, 1 / 2] ! i, [''a'', ''b'', ''c''] ! i)) perm
         \<and> select_sentences [1 / 2, 7 / 10, 1 / 2] [''a'', ''b'', ''c''] 2
             = Inr (map (\<lambda>i. [''a'', ''b'', ''c''] ! i) (py_slice_to 2 perm))
         \<and> (\<forall>p q. p < q \<and> q < length perm \<longrightarrow>
               [1 / 2, 7 / 10, 1 / 2 :: real] ! (perm ! q) \<le> [1 / 2, 7 / 10, 1 / 2] ! (perm ! p)
             \<and> ([1 / 2, 7 / 10, 1 / 2 :: real] ! (perm ! p) = [1 / 2, 7 / 10, 1 / 2] ! (perm ! q)
                  \<longrightarrow> perm ! p < perm ! q)))
   \<and> select_sentences [1 / 2, 7 / 10, 1 / 2] [''a'', ''b'', ''c''] 3 = Inr [''b'', ''a'', ''c'']"
proof -
  have h: "sentence_scores [1 / 2, 7 / 10, 1 / 2] [''a'', ''b'', ''c'']
             = Inr [(1 / 2, ''a''), (7 / 10, ''b''), (1 / 2, ''c'')]"
    by (simp add: sentence_scores_def upt_rec)
  have e: "select_sentences [1 / 2, 7 / 10, 1 / 2] [''a'', ''b'', ''c''] 3 = Inr [''b'', ''a'', ''c'']"
    by (simp add: select_sentences_def h py_sort_reverse_def py_slice_to_def)
  show ?thesis
    using h e ranking_ties_keep_corpus_order [OF h, of 2] by blast
qed

section \<open>The power iteration\<close>







text \<open>
  The vector held after \<open>j\<close> iterations of a longer run is the result of the run with
  \<open>max_iter = j\<close>: running \<open>j\<close> iterations and then \<open>k\<close> more is running \<open>j + k\<close>.
\<close>

lemma pagerank_loop_add:
  "pagerank_loop M d (j + k) s = pagerank_loop M d k (pagerank_loop M d j s)"
proof (induction j arbitrary: s)
  case 0
  then show ?case by simp
next
  case (Suc j)
  show ?case
  proof (cases "allclose (1 / 10 ^ 6) s (new_scores_of M d s)")
    case True
    have "pagerank_loop M d k s = s" using True by (cases k) (simp_all add: Let_def)
    with True show ?thesis by (simp add: Let_def)
  next
    case False
    with Suc show ?thesis by (simp add: Let_def)
  qed
qed





section \<open>Conservation of the score mass\<close>








section \<open>The number of selected sentences\<close>










lemma report_state_file:
  "files report_state (cleaning_metadata_path ''report.pdf'') = Some (CleaningMetadata report)"
  by (simp add: report_state_def sample_state_def)





lemma report_state_cache: "similarity_cache report_state key = None"
  by (simp add: report_state_def sample_state_def)









section \<open>Which files an operation writes\<close>

lemma artifact_path_ending: "\<exists>pre. artifact_path f e = pre @ e"
proof -
  have "\<exists>pre. path_join a (s @ e) = pre @ e" for a s
    unfolding path_join_def
    by (metis (no_types, opaque_lifting) append.assoc)
  then show ?thesis unfolding artifact_path_def by blast
qed

lemma artifact_path_neq:
  assumes "take n (rev e1) \<noteq> take n (rev e2)" "n \<le> length e1" "n \<le> length e2"
  shows "artifact_path f e1 \<noteq> artifact_path g e2"
proof
  assume eq: "artifact_path f e1 = artifact_path g e2"
  obtain p1 p2 where "artifact_path f e1 = p1 @ e1" "artifact_path g e2 = p2 @ e2"
    using artifact_path_ending by metis
  with eq have "rev e1 @ rev p1 = rev e2 @ rev p2" by (metis rev_append)
  then have "take n (rev e1 @ rev p1) = take n (rev e2 @ rev p2)" by simp
  then have "take n (rev e1) = take n (rev e2)" using assms(2,3) by simp
  with assms(1) show False by simp
qed

lemma cleaning_path_not_written:
  "cleaning_metadata_path g \<noteq> artifact_path f ''_extractive_summary.txt''"
  "cleaning_metadata_path g \<noteq> artifact_path f ''_extractive_summary_metadata.json''"
  "cleaning_metadata_path g \<noteq> artifact_path f ''_abstractive_summary.txt''"
  "cleaning_metadata_path g \<noteq> artifact_path f ''_abstractive_summary_metadata.json''"
  "cleaning_metadata_path g \<noteq> artifact_path f ''_hybrid_summary.txt''"
  "cleaning_metadata_path g \<noteq> artifact_path f ''_hybrid_summary_metadata.json''"
  "cleaning_metadata_path g \<noteq> artifact_path f ''_formatted_summary.json''"
  unfolding cleaning_metadata_path_def
  by (rule artifact_path_neq[where n = 15]; simp)+

lemma files_write_file: "files (write_file p c st) = (files st)(p \<mapsto> c)"
  by (simp add: write_file_def)

lemma cached_similarity_matrix_files:
  "cached_similarity_matrix ext sents u st = (st', r) \<Longrightarrow> files st' = files st"
  by (auto simp: cached_similarity_matrix_def Let_def split: option.splits sum.splits if_splits)

lemma run_algorithm_files:
  "run_algorithm ext a sents k u st = (st', r) \<Longrightarrow> files st' = files st"
  by (auto simp: run_algorithm_def optimized_textrank_summarize_def
      split: prod.splits sum.splits if_splits dest: cached_similarity_matrix_files)

lemma extractive_summary_files:
  assumes "p \<noteq> artifact_path f ''_extractive_summary.txt''"
    "p \<noteq> artifact_path f ''_extractive_summary_metadata.json''"
  shows "files (fst (extractive_summary ext f r a u st)) p = files st p"
  using assms
  by (auto simp: extractive_summary_def save_extractive_def Let_def files_write_file
      split: option.splits artifact.splits prod.splits sum.splits dest: run_algorithm_files)

lemma pipeline_loop_files:
  "pipeline_loop pipe mx mn chunks acc st = (st', r) \<Longrightarrow> files st' = files st"
  by (induction pipe mx mn chunks acc st rule: pipeline_loop.induct)
    (auto simp: Let_def split: sum.splits if_splits)

lemma chunked_loop_files:
  "chunked_loop m mx mn chunks acc st = (st', r) \<Longrightarrow> files st' = files st"
  by (induction m mx mn chunks acc st rule: chunked_loop.induct)
    (auto simp: Let_def split: sum.splits if_splits)

lemma summarize_text_files:
  "summarize_text ext text mx mn model up st = (st', r) \<Longrightarrow> files st' = files st"
  by (auto simp: summarize_text_def pipeline_summarize_def chunked_summarize_def
      split: option.splits sum.splits prod.splits if_splits
      dest: pipeline_loop_files chunked_loop_files)

lemma abstractive_summary_files:
  assumes "p \<noteq> artifact_path f ''_abstractive_summary.txt''"
    "p \<noteq> artifact_path f ''_abstractive_summary_metadata.json''"
  shows "files (fst (abstractive_summary ext f mx mn model up st)) p = files st p"
  using assms
  by (auto simp: abstractive_summary_def save_abstractive_def Let_def files_write_file
      split: option.splits artifact.splits prod.splits sum.splits dest: summarize_text_files)

section \<open>The hybrid pipeline when the abstractive step fails\<close>

text \<open>
  Claim C2 at a failing input: the two-sentence report, with \<^verbatim>\<open>TORCH_AVAILABLE\<close> false so
  that \<open>abstractive_summary\<close> raises \<open>ImportError\<close>.  \<open>hybrid_summary\<close> has written the
  extractive summary into \<^verbatim>\<open>"cleaned_text"\<close> before that call and its restoring
  statements come after it, so the call ends with the artifact still overridden.
\<close>

theorem hybrid_summary_failure_leaves_override:
  "snd (hybrid_summary (sample_externals\<lparr>torch_available := False\<rparr>) ''report.pdf'' (1 / 2) 200 50
          True report_state)
     = Inl ImportError
   \<and> files report_state (cleaning_metadata_path ''report.pdf'')
       = Some (CleaningMetadata
                 \<lparr>cleaned_text = ''Results improved. Costs fell.'',
                  sentences = [''Results improved.'', ''Costs fell.''],
                  other_keys = []\<rparr>)
   \<and> files (fst (hybrid_summary (sample_externals\<lparr>torch_available := False\<rparr>) ''report.pdf''
                    (1 / 2) 200 50 True report_state))
         (cleaning_metadata_path ''report.pdf'')
       = Some (CleaningMetadata
                 \<lparr>cleaned_text = ''Results improved.'',
                  sentences = [''Results improved.'', ''Costs fell.''],
                  other_keys = []\<rparr>)"
  by code_simp

section \<open>Retrieving the formatted hybrid summary\<close>

text \<open>
  Claim C6 at a failing input: \<open>formatted_hybrid_summary\<close> succeeds on the two-sentence
  report and saves its record as \<^verbatim>\<open>outputs/report_formatted_summary.json\<close>;
  \<open>get_summary\<close> with the type \<^verbatim>\<open>formatted_hybrid\<close> reads
  \<^verbatim>\<open>outputs/report_formatted_hybrid_summary_metadata.json\<close> and fails.
\<close>

theorem get_summary_formatted_hybrid_not_found:
  "snd (formatted_hybrid_summary sample_externals ''report.pdf'' (1 / 2) 200 50 True report_state)
     = Inr \<lparr>fs_title = ''Results improved. Costs fell.'',
            fs_objective = ''Objective not detected'',
            fs_key_points = [''Results improved.''],
            fs_section_summary = [(''Results improved. Costs fell.'', [])],
            fs_final_abstract = [],
            fs_processing_method = ''optimized_formatted'',
            fs_file_path = Some ''outputs/report_formatted_summary.json''\<rparr>
   \<and> get_summary ''report.pdf'' ''formatted_hybrid''
         (fst (formatted_hybrid_summary sample_externals ''report.pdf'' (1 / 2) 200 50 True
                 report_state))
       = Inl FileNotFoundError
   \<and> files (fst (formatted_hybrid_summary sample_externals ''report.pdf'' (1 / 2) 200 50 True
                    report_state))
         ''outputs/report_formatted_summary.json''
       = Some (FormattedSummary
                 \<lparr>fs_title = ''Results improved. Costs fell.'',
                  fs_objective = ''Objective not detected'',
                  fs_key_points = [''Results improved.''],
                  fs_section_summary = [(''Results improved. Costs fell.'', [])],
                  fs_final_abstract = [],
                  fs_processing_method = ''optimized_formatted'',
                  fs_file_path = None\<rparr>)"
  by code_simp

section \<open>Texts too short for the abstractive collaborator\<close>

lemma split_on_concat:
  "concat (map (\<lambda>s. s @ sep) (split_on sep cur text)) = cur @ text @ sep"
proof (induction sep cur "text" rule: split_on.induct)
  case (1 sep cur)
  then show ?case by simp
next
  case (2 sep cur c cs)
  show ?case
  proof (cases "sep \<noteq> [] \<and> prefix sep (c # cs)")
    case True
    then obtain rest where rest: "c # cs = sep @ rest" by (auto simp: prefix_def)
    from True have "length sep - 1 + 1 = length sep" by (cases sep) simp_all
    then have "drop (length sep - 1) cs = drop (length sep) (c # cs)"
      by (metis Suc_eq_plus1 drop_Suc_Cons)
    also have "\<dots> = rest" using rest by simp
    finally have d: "drop (length sep - 1) cs = rest" .
    have step: "split_on sep cur (c # cs) = cur # split_on sep [] rest"
      using True d by simp
    from True 2(1) d have "concat (map (\<lambda>s. s @ sep) (split_on sep [] rest)) = rest @ sep"
      by simp
    then have "concat (map (\<lambda>s. s @ sep) (split_on sep cur (c # cs))) = cur @ sep @ rest @ sep"
      unfolding step by simp
    also have "\<dots> = cur @ (c # cs) @ sep" unfolding rest by simp
    finally show ?thesis .
  next
    case False
    then have step: "split_on sep cur (c # cs) = split_on sep (cur @ [c]) cs"
      by auto
    from 2(2)[OF False] show ?thesis unfolding step by simp
  qed
qed

lemma length_split_ws_acc: "length (split_ws_acc cur s) \<le> length cur + length s"
proof (induction s arbitrary: cur)
  case Nil
  then show ?case by (cases cur) simp_all
next
  case (Cons c cs)
  show ?case
  proof (cases "is_space c")
    case True
    from Cons[of "[]"] have "length (split_ws_acc [] cs) \<le> length cs" by simp
    with True show ?thesis by (cases cur) simp_all
  next
    case False
    with Cons[of "cur @ [c]"] show ?thesis by simp
  qed
qed

lemma length_split_ws: "length (split_ws s) \<le> length s"
  using length_split_ws_acc[of "[]" s] by (simp add: split_ws_def)

lemma chunk_loop_single:
  "length temp + length (concat (map (\<lambda>s. s @ ''. '') ss)) \<le> sz \<Longrightarrow>
   chunk_loop sz ss chunks temp = (chunks, temp @ concat (map (\<lambda>s. s @ ''. '') ss))"
proof (induction ss arbitrary: temp)
  case Nil
  then show ?case by simp
next
  case (Cons s ss)
  have "length (split_ws temp) + length (split_ws s) \<le> length temp + length s"
    using length_split_ws[of temp] length_split_ws[of s] by linarith
  also have "\<dots> \<le> sz" using Cons.prems by simp
  finally have fits: "length (split_ws temp) + length (split_ws s) \<le> sz" .
  have "length (temp @ s @ ''. '') + length (concat (map (\<lambda>s. s @ ''. '') ss)) \<le> sz"
    using Cons.prems by simp
  from Cons.IH[OF this] fits show ?case by simp
qed

lemma make_chunks_single:
  assumes "length text + 2 \<le> sz"
  shows "make_chunks sz text = [strip (text @ ''. '')]"
proof -
  have c: "concat (map (\<lambda>s. s @ ''. '') (split_on ''. '' [] text)) = text @ ''. ''"
    using split_on_concat[of "''. ''" "[]" "text"] by simp
  have "length ([] :: string) + length (concat (map (\<lambda>s. s @ ''. '') (split_on ''. '' [] text))) \<le> sz"
    unfolding c using assms by simp
  from chunk_loop_single[OF this, of "[]"] c show ?thesis
    by (simp add: make_chunks_def)
qed

lemma is_space_blank: "is_space (CHR '' '')"
  by (simp add: is_space_def)

lemma length_strip_trailing_blank: "length (strip (s @ '' '')) \<le> length s"
proof -
  let ?u = "dropWhile is_space (s @ '' '')"
  show ?thesis
  proof (cases "?u = []")
    case True
    then show ?thesis by (simp add: strip_def)
  next
    case False
    have "s @ '' '' = takeWhile is_space (s @ '' '') @ ?u" by simp
    then have "last ?u = last (s @ '' '')" using False by (metis last_appendR)
    then have "last ?u = CHR '' ''" by simp
    with False obtain v where v: "?u = v @ '' ''"
      by (metis append_butlast_last_id)
    have "length ?u \<le> length (s @ '' '')" by (rule length_dropWhile_le)
    with v have lv: "length v \<le> length s" by simp
    have "strip (s @ '' '') = rev (dropWhile is_space (rev v))"
      unfolding strip_def v by (simp add: is_space_blank)
    moreover have "length (dropWhile is_space (rev v)) \<le> length (rev v)"
      by (rule length_dropWhile_le)
    ultimately show ?thesis using lv by simp
  qed
qed

lemma length_strip_le: "length (strip s) \<le> length s"
proof -
  have "length (dropWhile is_space (rev (dropWhile is_space s))) \<le> length (dropWhile is_space s)"
    using length_dropWhile_le[of is_space "rev (dropWhile is_space s)"] by simp
  also have "\<dots> \<le> length s" by (rule length_dropWhile_le)
  finally show ?thesis by (simp add: strip_def)
qed

lemma short_text_short_chunks:
  assumes "length text \<le> 49"
  shows "short_chunks text"
proof -
  have "make_chunks 1000 text = [strip (text @ ''. '')]"
    using assms by (intro make_chunks_single) simp
  moreover have "length (strip ((text @ ''.'') @ '' '')) \<le> length (text @ ''.'')"
    by (rule length_strip_trailing_blank)
  moreover have "length (strip (strip (text @ ''. ''))) \<le> length (strip (text @ ''. ''))"
    by (rule length_strip_le)
  ultimately show ?thesis using assms by (simp add: short_chunks_def)
qed

lemma pipeline_loop_short:
  "list_all (\<lambda>chunk. length (strip chunk) \<le> 50) chunks \<Longrightarrow>
   pipeline_loop pipe mx mn chunks acc st = (st, Inr acc)"
  by (induction chunks) simp_all

lemma pipeline_summarize_short:
  "short_chunks text \<Longrightarrow> pipeline_summarize pipe text mx mn st = (st, Inr [])"
  by (simp add: pipeline_summarize_def short_chunks_def pipeline_loop_short)

lemma summarize_text_short:
  assumes "short_chunks text" "pipeline_available ext model st"
  shows "\<exists>st'. summarize_text ext text mx mn model True st = (st', Inr [])
           \<and> files st' = files st \<and> collaborator_calls st' = collaborator_calls st"
  using assms
  by (auto simp: summarize_text_def pipeline_available_def pipeline_summarize_short
      split: option.splits sum.splits)

text \<open>
  Claim C10, amended.  A text of at most 49 characters has only chunks of at most 50
  characters after trimming (the single chunk is the text followed by a full stop).
  For a text whose chunks are all that short, \<open>pipeline_summarize\<close> calls the
  collaborator for no chunk and returns the empty string; \<open>abstractive_summary\<close> on
  the pipeline path, with torch and the pipeline available, then persists the empty
  summary and its metadata without raising.
\<close>

theorem short_text_is_not_sent:
  "(length cleaned \<le> 49 \<longrightarrow> short_chunks cleaned)
   \<and> (short_chunks cleaned \<longrightarrow> pipeline_summarize pipe cleaned max_length min_length st = (st, Inr []))
   \<and> (torch_available ext
        \<and> files st (cleaning_metadata_path filename) = Some (CleaningMetadata cd)
        \<and> short_chunks (cleaned_text cd)
        \<and> pipeline_available ext model st \<longrightarrow>
      (\<exists>st' md. abstractive_summary ext filename max_length min_length model True st = (st', Inr md)
          \<and> ab_summary_text md = []
          \<and> collaborator_calls st' = collaborator_calls st
          \<and> files st' (artifact_path filename ''_abstractive_summary.txt'') = Some (TextFile [])
          \<and> files st' (artifact_path filename ''_abstractive_summary_metadata.json'')
              = Some (AbstractiveMetadata md)))"
proof (intro conjI impI)
  assume "length cleaned \<le> 49"
  then show "short_chunks cleaned" by (rule short_text_short_chunks)
next
  assume "short_chunks cleaned"
  then show "pipeline_summarize pipe cleaned max_length min_length st = (st, Inr [])"
    by (rule pipeline_summarize_short)
next
  assume a: "torch_available ext
        \<and> files st (cleaning_metadata_path filename) = Some (CleaningMetadata cd)
        \<and> short_chunks (cleaned_text cd)
        \<and> pipeline_available ext model st"
  then obtain st1 where st1:
    "summarize_text ext (cleaned_text cd) max_length min_length model True st = (st1, Inr [])"
    "files st1 = files st" "collaborator_calls st1 = collaborator_calls st"
    using summarize_text_short[of "cleaned_text cd" ext model st max_length min_length] by blast
  have ne: "artifact_path filename ''_abstractive_summary.txt''
        \<noteq> artifact_path filename ''_abstractive_summary_metadata.json''"
    by (rule artifact_path_neq[where n = 1]) simp_all
  show "\<exists>st' md. abstractive_summary ext filename max_length min_length model True st = (st', Inr md)
          \<and> ab_summary_text md = []
          \<and> collaborator_calls st' = collaborator_calls st
          \<and> files st' (artifact_path filename ''_abstractive_summary.txt'') = Some (TextFile [])
          \<and> files st' (artifact_path filename ''_abstractive_summary_metadata.json'')
              = Some (AbstractiveMetadata md)"
    using a st1 ne
    by (simp add: abstractive_summary_def save_abstractive_def Let_def write_file_def)
qed

theorem short_text_is_not_sent_witness:
  "length ''Costs fell.'' \<le> 49
   \<and> short_chunks ''Costs fell.''
   \<and> pipeline_summarize sample_model ''Costs fell.'' 150 30 report_state = (report_state, Inr [])
   \<and> torch_available sample_externals
   \<and> files report_state (cleaning_metadata_path ''report.pdf'') = Some (CleaningMetadata report)
   \<and> short_chunks (cleaned_text report)
   \<and> pipeline_available sample_externals bart_large_cnn report_state
   \<and> (\<exists>st' md. abstractive_summary sample_externals ''report.pdf'' 150 30 bart_large_cnn True
                   report_state = (st', Inr md)
         \<and> ab_summary_text md = []
         \<and> collaborator_calls st' = collaborator_calls report_state
         \<and> files st' (artifact_path ''report.pdf'' ''_abstractive_summary.txt'') = Some (TextFile [])
         \<and> files st' (artifact_path ''report.pdf'' ''_abstractive_summary_metadata.json'')
             = Some (AbstractiveMetadata md))"
proof -
  have h1: "length ''Costs fell.'' \<le> 49" by simp
  have h2: "torch_available sample_externals" by (simp add: sample_externals_def)
  have h3: "short_chunks (cleaned_text report)" by code_simp
  have h4: "pipeline_available sample_externals bart_large_cnn report_state"
    by (simp add: pipeline_available_def sample_externals_def report_state_def sample_state_def)
  show ?thesis
    using h1 h2 h3 h4 report_state_file
      short_text_is_not_sent [where cleaned = "''Costs fell.''" and pipe = sample_model
        and max_length = 150 and min_length = 30 and st = report_state
        and ext = sample_externals and filename = "''report.pdf''" and cd = report
        and model = bart_large_cnn]
    by blast
qed

text \<open>
  Claim C10, as stated, at a cleaned text of exactly 50 characters: the chunk is the
  text followed by a second full stop, 51 characters, and it is handed to the
  collaborator, whose answer is returned.
\<close>

theorem fifty_characters_are_sent_counterexample:
  "length fifty_characters = 50
   \<and> collaborator_calls
         (fst (pipeline_summarize sample_model fifty_characters 150 30 (sample_state Map.empty)))
       = [''Quarterly results improved while total costs fell..'']
   \<and> snd (pipeline_summarize sample_model fifty_characters 150 30 (sample_state Map.empty))
       = Inr ''Results improved.''"
  by code_simp

section \<open>The cleaning artifact across the operations\<close>

lemma extractive_summary_keeps:
  assumes "extractive_summary ext f r a u st = (st', res)"
  shows "files st' (cleaning_metadata_path g) = files st (cleaning_metadata_path g)"
  using extractive_summary_files[of "cleaning_metadata_path g" f ext r a u st] assms
    cleaning_path_not_written(1,2)[of g f]
  by simp

lemma abstractive_summary_keeps:
  assumes "abstractive_summary ext f mx mn model up st = (st', res)"
  shows "files st' (cleaning_metadata_path g) = files st (cleaning_metadata_path g)"
  using abstractive_summary_files[of "cleaning_metadata_path g" f ext mx mn model up st] assms
    cleaning_path_not_written(3,4)[of g f]
  by simp

lemma formatted_hybrid_summary_scrubs:
  assumes "files st (cleaning_metadata_path f) = Some (CleaningMetadata cd)"
  shows "files (fst (formatted_hybrid_summary ext f r mx mn up st)) (cleaning_metadata_path f)
           = Some (CleaningMetadata (cd\<lparr>cleaned_text := scrub (cleaned_text cd)\<rparr>))"
proof -
  let ?p = "cleaning_metadata_path f"
  let ?st0 = "write_file ?p (CleaningMetadata (cd\<lparr>cleaned_text := scrub (cleaned_text cd)\<rparr>)) st"
  have s: "scrub_artifact f st = (scrub (cleaned_text cd), ?st0)"
    using assms by (simp add: scrub_artifact_def Let_def)
  have f0: "files ?st0 ?p = Some (CleaningMetadata (cd\<lparr>cleaned_text := scrub (cleaned_text cd)\<rparr>))"
    by (simp add: files_write_file)
  obtain st1 r1 where a: "abstractive_summary ext f mx mn bart_large_cnn up ?st0 = (st1, r1)"
    by (cases "abstractive_summary ext f mx mn bart_large_cnn up ?st0")
  have f1: "files st1 ?p = files ?st0 ?p" using a by (rule abstractive_summary_keeps)
  obtain st2 r2 where e: "extractive_summary ext f r ''textrank'' True st1 = (st2, r2)"
    by (cases "extractive_summary ext f r ''textrank'' True st1")
  have f2: "files st2 ?p = files st1 ?p" using e by (rule extractive_summary_keeps)
  show ?thesis
    using s a e f0 f1 f2 cleaning_path_not_written(7)[of f f]
    by (simp add: formatted_hybrid_summary_def Let_def files_write_file split: sum.splits)
qed

lemma hybrid_summary_restores_on_success:
  assumes "hybrid_summary ext f r mx mn up st = (st', Inr md)"
  shows "files st' (cleaning_metadata_path f) = files st (cleaning_metadata_path f)"
proof -
  let ?p = "cleaning_metadata_path f"
  obtain st1 r1 where e: "extractive_summary ext f r ''textrank'' True st = (st1, r1)"
    by (cases "extractive_summary ext f r ''textrank'' True st")
  have f1: "files st1 ?p = files st ?p" using e by (rule extractive_summary_keeps)
  from assms e obtain er where r1: "r1 = Inr er"
    by (cases r1) (simp_all add: hybrid_summary_def)
  from assms e r1 obtain cd where cd: "files st1 ?p = Some (CleaningMetadata cd)"
    by (auto simp: hybrid_summary_def split: option.splits artifact.splits)
  let ?st2 = "write_file ?p (CleaningMetadata (cd\<lparr>cleaned_text := ex_summary_text er\<rparr>)) st1"
  obtain st3 r3 where a: "abstractive_summary ext f mx mn bart_large_cnn up ?st2 = (st3, r3)"
    by (cases "abstractive_summary ext f mx mn bart_large_cnn up ?st2")
  from assms e r1 cd a obtain hr where r3: "r3 = Inr hr"
    by (cases r3) (simp_all add: hybrid_summary_def Let_def)
  have "files st' ?p = Some (CleaningMetadata cd)"
    using assms e r1 cd a r3 cleaning_path_not_written(5,6)[of f f]
    by (auto simp: hybrid_summary_def Let_def files_write_file)
  with cd f1 show ?thesis by simp
qed

text \<open>
  Claim C5, as stated, at a report whose cleaned text starts with \<^verbatim>\<open>Page 3\<close>:
  \<open>formatted_hybrid_summary\<close> completes, and the persisted artifact has lost the page
  number.
\<close>

theorem formatted_hybrid_summary_scrubs_counterexample:
  "snd (formatted_hybrid_summary sample_externals ''paged.pdf'' (1 / 2) 200 50 True paged_report_state)
     = Inr \<lparr>fs_title = ''Results improved. Costs fell.'',
            fs_objective = ''Objective not detected'',
            fs_key_points = [''Page 3 Results improved.''],
            fs_section_summary =
              [(''Introduction'', ''Results improved.''), (''Applications'', ''Costs fell.''),
               (''Challenges'', []), (''Future'', [])],
            fs_final_abstract = [],
            fs_processing_method = ''optimized_formatted'',
            fs_file_path = Some ''outputs/paged_formatted_summary.json''\<rparr>
   \<and> files paged_report_state (cleaning_metadata_path ''paged.pdf'')
       = Some (CleaningMetadata
                 \<lparr>cleaned_text = ''Page 3 Results improved. Costs fell.'',
                  sentences = [''Page 3 Results improved.'', ''Costs fell.''],
                  other_keys = []\<rparr>)
   \<and> files (fst (formatted_hybrid_summary sample_externals ''paged.pdf'' (1 / 2) 200 50 True
                    paged_report_state))
         (cleaning_metadata_path ''paged.pdf'')
       = Some (CleaningMetadata
                 \<lparr>cleaned_text = '' Results improved. Costs fell.'',
                  sentences = [''Page 3 Results improved.'', ''Costs fell.''],
                  other_keys = []\<rparr>)"
  by code_simp

text \<open>
  Claim C5, amended.  \<open>extractive_summary\<close> and \<open>abstractive_summary\<close> leave the
  cleaning artifact of every document as it was (\<open>get_summary\<close> writes nothing), and a
  \<open>hybrid_summary\<close> that returns has restored it.  \<open>formatted_hybrid_summary\<close>
  overwrites \<^verbatim>\<open>"cleaned_text"\<close> with the scrubbed text (page markers, e-mail addresses
  and phone numbers removed) and never restores it: after the call the artifact is its
  pre-call value with \<^verbatim>\<open>"cleaned_text"\<close> scrubbed.
\<close>

theorem cleaning_artifact_after_operations:
  "files (fst (extractive_summary ext f ratio algorithm use_cache st)) (cleaning_metadata_path g)
     = files st (cleaning_metadata_path g)
   \<and> files (fst (abstractive_summary ext f max_length min_length model use_pipeline st))
         (cleaning_metadata_path g)
     = files st (cleaning_metadata_path g)
   \<and> (snd (hybrid_summary ext f ratio max_length min_length use_pipeline st) = Inr md \<longrightarrow>
        files (fst (hybrid_summary ext f ratio max_length min_length use_pipeline st))
          (cleaning_metadata_path f)
        = files st (cleaning_metadata_path f))
   \<and> (files st (cleaning_metadata_path f) = Some (CleaningMetadata cd) \<longrightarrow>
        files (fst (formatted_hybrid_summary ext f ratio max_length min_length use_pipeline st))
          (cleaning_metadata_path f)
        = Some (CleaningMetadata (cd\<lparr>cleaned_text := scrub (cleaned_text cd)\<rparr>)))"
proof (intro conjI impI)
  show "files (fst (extractive_summary ext f ratio algorithm use_cache st)) (cleaning_metadata_path g)
     = files st (cleaning_metadata_path g)"
    by (rule extractive_summary_keeps) (rule prod.collapse[symmetric])
next
  show "files (fst (abstractive_summary ext f max_length min_length model use_pipeline st))
         (cleaning_metadata_path g)
     = files st (cleaning_metadata_path g)"
    by (rule abstractive_summary_keeps) (rule prod.collapse[symmetric])
next
  assume "snd (hybrid_summary ext f ratio max_length min_length use_pipeline st) = Inr md"
  then have "hybrid_summary ext f ratio max_length min_length use_pipeline st
      = (fst (hybrid_summary ext f ratio max_length min_length use_pipeline st), Inr md)"
    by (metis prod.collapse)
  then show "files (fst (hybrid_summary ext f ratio max_length min_length use_pipeline st))
          (cleaning_metadata_path f)
        = files st (cleaning_metadata_path f)"
    by (rule hybrid_summary_restores_on_success)
next
  assume "files st (cleaning_metadata_path f) = Some (CleaningMetadata cd)"
  then show "files (fst (formatted_hybrid_summary ext f ratio max_length min_length use_pipeline st))
          (cleaning_metadata_path f)
        = Some (CleaningMetadata (cd\<lparr>cleaned_text := scrub (cleaned_text cd)\<rparr>))"
    by (rule formatted_hybrid_summary_scrubs)
qed

theorem cleaning_artifact_after_operations_witness:
  "snd (hybrid_summary sample_externals ''report.pdf'' (1 / 2) 200 50 True report_state)
     = Inr \<lparr>hy_summary_text = [],
            hy_original_length = 29,
            hy_summary_length = 0,
            hy_compression_ratio = 0,
            hy_extractive_ratio = 1 / 2,
            hy_file_path = ''outputs/report_hybrid_summary.txt'',
            hy_processing_method = ''optimized_hybrid''\<rparr>
   \<and> files (fst (hybrid_summary sample_externals ''report.pdf'' (1 / 2) 200 50 True report_state))
         (cleaning_metadata_path ''report.pdf'')
       = files report_state (cleaning_metadata_path ''report.pdf'')
   \<and> files report_state (cleaning_metadata_path ''report.pdf'') = Some (CleaningMetadata report)
   \<and> files (fst (formatted_hybrid_summary sample_externals ''report.pdf'' (1 / 2) 200 50 True
                    report_state))
         (cleaning_metadata_path ''report.pdf'')
       = Some (CleaningMetadata (report\<lparr>cleaned_text := scrub (cleaned_text report)\<rparr>))"
proof -
  have h: "snd (hybrid_summary sample_externals ''report.pdf'' (1 / 2) 200 50 True report_state)
     = Inr \<lparr>hy_summary_text = [],
            hy_original_length = 29,
            hy_summary_length = 0,
            hy_compression_ratio = 0,
            hy_extractive_ratio = 1 / 2,
            hy_file_path = ''outputs/report_hybrid_summary.txt'',
            hy_processing_method = ''optimized_hybrid''\<rparr>"
    by code_simp
  show ?thesis
    using h report_state_file
      cleaning_artifact_after_operations [where ext = sample_externals and f = "''report.pdf''"
        and ratio = "1 / 2" and max_length = 200 and min_length = 50 and use_pipeline = True
        and st = report_state and cd = report
        and md = "\<lparr>hy_summary_text = [],
            hy_original_length = 29,
            hy_summary_length = 0,
            hy_compression_ratio = 0,
            hy_extractive_ratio = 1 / 2,
            hy_file_path = ''outputs/report_hybrid_summary.txt'',
            hy_processing_method = ''optimized_hybrid''\<rparr>"]
    by blast
qed

section \<open>The similarity cache\<close>

lemma cached_similarity_matrix_snd:
  assumes "cache_entry_ok ext st sents"
  shows "snd (cached_similarity_matrix ext sents use_cache st)
           = create_similarity_matrix_async ext sents"
  using assms
  by (auto simp: cached_similarity_matrix_def cache_entry_ok_def Let_def
      split: option.splits sum.splits)

lemma cached_similarity_matrix_cache_ok:
  assumes "cache_entry_ok ext st sents" "cached_similarity_matrix ext sents use_cache st = (st', r)"
  shows "cache_entry_ok ext st' sents"
  using assms
  by (auto simp: cached_similarity_matrix_def cache_entry_ok_def Let_def
      split: option.splits sum.splits if_splits)

lemma run_algorithm_cache_ok:
  assumes "cache_entry_ok ext st sents" "run_algorithm ext a sents k u st = (st', r)"
  shows "cache_entry_ok ext st' sents"
  using assms
  by (auto simp: run_algorithm_def optimized_textrank_summarize_def
      split: prod.splits sum.splits if_splits dest: cached_similarity_matrix_cache_ok)

lemma textrank_snd:
  assumes "cache_entry_ok ext st sents"
  shows "snd (optimized_textrank_summarize ext sents k use_cache st)
           = (case create_similarity_matrix_async ext sents of
                Inl e \<Rightarrow> Inl e
              | Inr M \<Rightarrow>
                  (case pagerank M default_damping default_max_iter of
                     Inl e \<Rightarrow> Inl e
                   | Inr scores \<Rightarrow> select_sentences scores sents k))"
  using cached_similarity_matrix_snd[OF assms, of use_cache]
  by (auto simp: optimized_textrank_summarize_def split: prod.splits sum.splits)

lemma save_extractive_snd:
  "snd (save_extractive f r a n sel st) = snd (save_extractive f r a n sel st')"
  by (simp add: save_extractive_def Let_def)

lemma save_extractive_cache:
  "similarity_cache (fst (save_extractive f r a n sel st)) = similarity_cache st"
  by (simp add: save_extractive_def Let_def write_file_def)

lemma extractive_summary_snd_textrank:
  assumes "files st (cleaning_metadata_path f) = Some (CleaningMetadata cd)"
    and "cache_entry_ok ext st (sentences cd)"
  shows "snd (extractive_summary ext f r ''textrank'' use_cache st)
           = (if sentences cd = [] then Inl ValueError
              else case snd (optimized_textrank_summarize ext (sentences cd)
                         (num_sentences_of (length (sentences cd)) r) False st) of
                     Inl e \<Rightarrow> Inl e
                   | Inr sel \<Rightarrow> snd (save_extractive f r ''textrank'' (length (sentences cd)) sel st))"
proof (cases "sentences cd = []")
  case True
  then show ?thesis using assms(1) by (simp add: extractive_summary_def)
next
  case False
  let ?k = "num_sentences_of (length (sentences cd)) r"
  obtain st1 r1 where t: "optimized_textrank_summarize ext (sentences cd) ?k use_cache st = (st1, r1)"
    by (cases "optimized_textrank_summarize ext (sentences cd) ?k use_cache st")
  have "snd (optimized_textrank_summarize ext (sentences cd) ?k use_cache st)
      = snd (optimized_textrank_summarize ext (sentences cd) ?k False st)"
    using textrank_snd[OF assms(2)] by simp
  with t have r1: "snd (optimized_textrank_summarize ext (sentences cd) ?k False st) = r1"
    by simp
  show ?thesis
  proof (cases r1)
    case (Inl e)
    with False t r1 assms(1) show ?thesis
      by (simp add: extractive_summary_def run_algorithm_def Let_def)
  next
    case (Inr sel)
    with False t r1 assms(1)
      save_extractive_snd[of f r "''textrank''" "length (sentences cd)" sel st1 st]
    show ?thesis
      by (simp add: extractive_summary_def run_algorithm_def Let_def)
  qed
qed

lemma extractive_summary_cache_ok:
  assumes "files st (cleaning_metadata_path f) = Some (CleaningMetadata cd)"
    and "cache_entry_ok ext st (sentences cd)"
    and "extractive_summary ext f r a u st = (st', res)"
  shows "cache_entry_ok ext st' (sentences cd)"
proof (cases "sentences cd = []")
  case True
  with assms show ?thesis by (simp add: extractive_summary_def)
next
  case False
  let ?k = "num_sentences_of (length (sentences cd)) r"
  obtain st1 r1 where t: "run_algorithm ext a (sentences cd) ?k u st = (st1, r1)"
    by (cases "run_algorithm ext a (sentences cd) ?k u st")
  have c1: "cache_entry_ok ext st1 (sentences cd)"
    using run_algorithm_cache_ok[OF assms(2) t] .
  show ?thesis
  proof (cases r1)
    case (Inl e)
    with False t assms(1,3) c1 show ?thesis
      by (simp add: extractive_summary_def Let_def)
  next
    case (Inr sel)
    with False t assms(1,3)
    have "st' = fst (save_extractive f r a (length (sentences cd)) sel st1)"
      by (simp add: extractive_summary_def Let_def)
    with c1 show ?thesis
      by (simp add: cache_entry_ok_def save_extractive_cache)
  qed
qed

text \<open>
  Claim C3, amended.  When the cache holds under the corpus's key either nothing or the
  matrix computed for that corpus, \<open>extractive_summary\<close> under the graph algorithm
  returns with \<^verbatim>\<open>use_cache=True\<close> what it returns with \<^verbatim>\<open>use_cache=False\<close>, a second
  cached call (the hit) returns the same again, and the cache is left in such a state.
  Nothing is said of a key that holds the matrix of another corpus: the key is the hash
  of the space-joined sentences and a hit is not compared with the corpus.
\<close>

theorem cache_hit_equals_recomputation:
  assumes "files st (cleaning_metadata_path f) = Some (CleaningMetadata cd)"
    and "cache_entry_ok ext st (sentences cd)"
  shows "snd (extractive_summary ext f r ''textrank'' True st)
           = snd (extractive_summary ext f r ''textrank'' False st)
       \<and> snd (extractive_summary ext f r ''textrank'' True
                (fst (extractive_summary ext f r ''textrank'' True st)))
           = snd (extractive_summary ext f r ''textrank'' False st)
       \<and> cache_entry_ok ext (fst (extractive_summary ext f r ''textrank'' True st)) (sentences cd)"
proof -
  let ?st1 = "fst (extractive_summary ext f r ''textrank'' True st)"
  have c1: "cache_entry_ok ext ?st1 (sentences cd)"
    using extractive_summary_cache_ok[OF assms, of r "''textrank''" True ?st1]
    by (metis prod.collapse)
  have f1: "files ?st1 (cleaning_metadata_path f) = Some (CleaningMetadata cd)"
    using extractive_summary_keeps[of ext f r "''textrank''" True st ?st1 _ f] assms(1)
    by (metis prod.collapse)
  have a: "snd (extractive_summary ext f r ''textrank'' True st)
           = snd (extractive_summary ext f r ''textrank'' False st)"
    by (simp add: extractive_summary_snd_textrank[OF assms])
  have t: "snd (optimized_textrank_summarize ext (sentences cd) k False ?st1)
         = snd (optimized_textrank_summarize ext (sentences cd) k False st)" for k
    using textrank_snd[OF c1, of k False] textrank_snd[OF assms(2), of k False] by simp
  have "snd (extractive_summary ext f r ''textrank'' True ?st1)
           = snd (extractive_summary ext f r ''textrank'' False st)"
    using save_extractive_snd[of f r "''textrank''" "length (sentences cd)" _ ?st1 st]
    by (simp add: extractive_summary_snd_textrank[OF f1 c1]
        extractive_summary_snd_textrank[OF assms] t split: sum.splits)
  with a c1 show ?thesis by blast
qed

theorem cache_hit_equals_recomputation_witness:
  "files report_state (cleaning_metadata_path ''report.pdf'') = Some (CleaningMetadata report)
   \<and> cache_entry_ok sample_externals report_state (sentences report)
   \<and> snd (extractive_summary sample_externals ''report.pdf'' (1 / 2) ''textrank'' True report_state)
       = snd (extractive_summary sample_externals ''report.pdf'' (1 / 2) ''textrank'' False
                report_state)
   \<and> snd (extractive_summary sample_externals ''report.pdf'' (1 / 2) ''textrank'' True
            (fst (extractive_summary sample_externals ''report.pdf'' (1 / 2) ''textrank'' True
                    report_state)))
       = snd (extractive_summary sample_externals ''report.pdf'' (1 / 2) ''textrank'' False
                report_state)
   \<and> cache_entry_ok sample_externals
        (fst (extractive_summary sample_externals ''report.pdf'' (1 / 2) ''textrank'' True
                report_state))
        (sentences report)"
proof -
  have h: "cache_entry_ok sample_externals report_state (sentences report)"
    by (simp add: cache_entry_ok_def report_state_cache)
  show ?thesis
    using h report_state_file
      cache_hit_equals_recomputation [OF report_state_file h, of "1 / 2"]
    by blast
qed

text \<open>
  Claim C3, as stated, at two documents with the cleaned text
  \<^verbatim>\<open>Results improved. Costs fell.\<close>, stored as one sentence (\<^verbatim>\<open>memo.pdf\<close>) and as two
  (\<^verbatim>\<open>report.pdf\<close>).  Both corpora join to the same string, hence to the same cache key
  under any hash.  After a cached call on the memo, the cached call on the report is
  served the memo's \<open>1 \<times> 1\<close> matrix and fails with \<open>IndexError\<close>, where the call
  without cache returns a summary.
\<close>

theorem cache_key_collision_counterexample:
  "snd (extractive_summary sample_externals ''report.pdf'' (1 / 2) ''textrank'' True
          (fst (extractive_summary sample_externals ''memo.pdf'' (1 / 2) ''textrank'' True
                  two_documents_state)))
     = Inl IndexError
   \<and> snd (extractive_summary sample_externals ''report.pdf'' (1 / 2) ''textrank'' False
          (fst (extractive_summary sample_externals ''memo.pdf'' (1 / 2) ''textrank'' True
                  two_documents_state)))
     = Inr \<lparr>ex_summary_text = ''Results improved.'',
            ex_summary_sentences = [''Results improved.''],
            ex_original_sentences = 2,
            ex_compression_ratio = 1 / 2,
            ex_algorithm = ''textrank'',
            ex_summary_ratio = 1 / 2,
            ex_file_path = ''outputs/report_extractive_summary.txt'',
            ex_processing_time = ''optimized''\<rparr>"
  by code_simp

section \<open>Retrieval after the other three operations\<close>

text \<open>
  The extractive, abstractive and hybrid operations write the file that \<open>get_summary\<close>
  reads for their type, so the record they return is the record retrieved.
\<close>

lemma summary_metadata_path_eq:
  "summary_metadata_path f ''extractive'' = artifact_path f ''_extractive_summary_metadata.json''"
  "summary_metadata_path f ''abstractive'' = artifact_path f ''_abstractive_summary_metadata.json''"
  "summary_metadata_path f ''hybrid'' = artifact_path f ''_hybrid_summary_metadata.json''"
  "summary_metadata_path f ''formatted_hybrid''
     = artifact_path f ''_formatted_hybrid_summary_metadata.json''"
  by (simp_all add: summary_metadata_path_def)

lemma get_summary_after_extractive:
  assumes "extractive_summary ext f r a u st = (st', Inr md)"
  shows "get_summary f ''extractive'' st' = Inr (ExtractiveMetadata md)"
  using assms
  by (auto simp: extractive_summary_def save_extractive_def Let_def get_summary_def
      summary_metadata_path_eq files_write_file
      split: option.splits artifact.splits prod.splits sum.splits if_splits)

lemma get_summary_after_abstractive:
  assumes "abstractive_summary ext f mx mn model up st = (st', Inr md)"
  shows "get_summary f ''abstractive'' st' = Inr (AbstractiveMetadata md)"
  using assms
  by (auto simp: abstractive_summary_def save_abstractive_def Let_def get_summary_def
      summary_metadata_path_eq files_write_file
      split: option.splits artifact.splits prod.splits sum.splits if_splits)

lemma get_summary_after_hybrid:
  assumes "hybrid_summary ext f r mx mn up st = (st', Inr md)"
  shows "get_summary f ''hybrid'' st' = Inr (HybridMetadata md)"
  using assms
  by (auto simp: hybrid_summary_def Let_def get_summary_def
      summary_metadata_path_eq files_write_file
      split: option.splits artifact.splits prod.splits sum.splits if_splits)

section \<open>The hybrid pipeline for any document\<close>

text \<open>
  Whenever the abstractive pass of \<open>hybrid_summary\<close> raises, the call ends with that
  exception and the artifact holds the extractive summary as its \<^verbatim>\<open>"cleaned_text"\<close>.
\<close>

lemma hybrid_summary_keeps_override_on_failure:
  assumes "extractive_summary ext f r ''textrank'' True st = (st1, Inr er)"
    and "files st (cleaning_metadata_path f) = Some (CleaningMetadata cd)"
    and "abstractive_summary ext f mx mn bart_large_cnn up
           (write_file (cleaning_metadata_path f)
              (CleaningMetadata (cd\<lparr>cleaned_text := ex_summary_text er\<rparr>)) st1) = (st3, Inl e)"
  shows "hybrid_summary ext f r mx mn up st = (st3, Inl e)"
    and "files st3 (cleaning_metadata_path f)
           = Some (CleaningMetadata (cd\<lparr>cleaned_text := ex_summary_text er\<rparr>))"
proof -
  have f1: "files st1 (cleaning_metadata_path f) = Some (CleaningMetadata cd)"
    using extractive_summary_keeps[OF assms(1), of f] assms(2) by simp
  then show "hybrid_summary ext f r mx mn up st = (st3, Inl e)"
    using assms(1,3) by (simp add: hybrid_summary_def Let_def)
  show "files st3 (cleaning_metadata_path f)
           = Some (CleaningMetadata (cd\<lparr>cleaned_text := ex_summary_text er\<rparr>))"
    using abstractive_summary_keeps[OF assms(3), of f] by (simp add: files_write_file)
qed

end
